theory Spec2Isabelle
  imports Main
begin

section \<open>Data model (types/spreadsheet.ts)\<close>

text \<open>
  Row and column indices, history indices and fraction-digit counts are the integers among
  the source's \<open>number\<close>s and are modelled as \<open>int\<close>. Cell contents are
  \<open>string | number\<close>; the numbers a cell can hold are kept abstract (the type
  parameter \<open>'n\<close>) and everything the source asks of the host about them
  (\<open>parseFloat\<close>, \<open>isNaN\<close>, \<open>toLocaleString\<close>, ...) is a field of the
  record \<open>platform\<close> below, so every general theorem holds for any host.
\<close>

datatype jsError = TypeError | RangeError

datatype 'n scalar = Str string | Num 'n

datatype coltype = Text | Number | Currency | Percentage | Date | Email | Url | Boolean

text \<open>The \<open>format\<close> of a column; its \<open>validation\<close> field is read nowhere.\<close>

record colformat =
  decimals :: "int option"
  currency :: "string option"
  dateFormat :: "string option"

record column =
  col_key :: string
  col_name :: string
  col_type :: coltype
  col_format :: "colformat option"

type_synonym 'n item = "string \<rightharpoonup> 'n scalar"

record 'n spreadsheetData =
  columns :: "column list"
  items :: "'n item list"

record cellPosition =
  row :: int
  col :: int

record cellRange =
  range_start :: cellPosition
  range_end :: cellPosition

datatype textAlign = AlignLeft | AlignCenter | AlignRight

record cellStyle =
  bold :: "bool option"
  italic :: "bool option"
  textAlign :: "textAlign option"
  backgroundColor :: "string option"

text \<open>
  A cell override. Every override the hook creates has a \<open>value\<close>; the optional
  \<open>displayValue\<close> is never written or read.
\<close>

record 'n cell =
  cell_value :: "'n scalar"
  cell_style :: "cellStyle option"
  cell_formula :: "string option"

text \<open>
  \<open>cells\<close> is a JavaScript object keyed by strings that are never array indices, so
  \<open>Object.keys\<close> lists its properties in insertion order: an association list with
  distinct keys, new keys appended at the end.
\<close>

type_synonym 'n cells = "(string \<times> 'n cell) list"

text \<open>
  The state snapshots itself: a history entry is \<open>{ ...currentState }\<close>, which
  still carries the \<open>history\<close> and \<open>historyIndex\<close> it had.
\<close>

datatype 'n spreadsheetState = SpreadsheetState
  (data: "'n spreadsheetData")
  (cells: "'n cells")
  (selectedCell: "cellPosition option")
  (selectedRange: "cellRange option")
  (editingCell: "cellPosition option")
  (history: "'n spreadsheetState list")
  (historyIndex: int)

datatype sortDirection = Asc | Desc

datatype 'n cellOperation =
    SET_VALUE cellPosition "'n scalar"
  | SET_STYLE cellPosition cellStyle
  | SET_FORMULA cellPosition string
  | SELECT_CELL cellPosition
  | SELECT_RANGE cellRange
  | START_EDITING cellPosition
  | STOP_EDITING
  | ADD_COLUMN "int option" "string option"
  | ADD_ROW "int option"
  | DELETE_COLUMN int
  | DELETE_ROW int
  | UPDATE_COLUMN_NAME int string
  | UPDATE_COLUMN_TYPE int coltype "colformat option"
  | SORT_COLUMN int sortDirection
  | UNDO
  | REDO

text \<open>The result of \<open>validateCellValue\<close>.\<close>

record validation =
  isValid :: bool
  error :: "string option"
  formattedValue :: "string option"

section \<open>The host (JavaScript built-ins the source calls)\<close>

text \<open>
  \<^item> \<open>isNaN n\<close>, \<open>isZero n\<close> (\<open>n === 0\<close>, true of both zeros), \<open>numberToString n\<close>
    (\<open>String(n)\<close>), \<open>parseFloat s\<close>;
  \<^item> \<open>toLocaleString loc n lo hi\<close> is
    \<open>n.toLocaleString(loc, {minimumFractionDigits: lo, maximumFractionDigits: hi})\<close>, which
    throws a RangeError for digit counts the host refuses;
  \<^item> \<open>formatCurrency code n\<close> is
    \<open>new Intl.NumberFormat('en-US', {style: 'currency', currency: code}).format(n)\<close>, which
    throws for a malformed currency code;
  \<^item> \<open>toFixed n k\<close> is \<open>n.toFixed(k)\<close>;
  \<^item> \<open>parseDate s\<close> is \<open>new Date(s)\<close>: \<open>None\<close> for an invalid date, else
    \<open>(getFullYear(), getMonth(), getDate())\<close>;
  \<^item> \<open>parsesAsURL s\<close> says whether \<open>new URL(s)\<close> returns.
\<close>

record 'n platform =
  isNaN :: "'n \<Rightarrow> bool"
  isZero :: "'n \<Rightarrow> bool"
  numberToString :: "'n \<Rightarrow> string"
  parseFloat :: "string \<Rightarrow> 'n"
  toLocaleString :: "string option \<Rightarrow> 'n \<Rightarrow> int \<Rightarrow> int \<Rightarrow> jsError + string"
  formatCurrency :: "string \<Rightarrow> 'n \<Rightarrow> jsError + string"
  toFixed :: "'n \<Rightarrow> int \<Rightarrow> string"
  parseDate :: "string \<Rightarrow> (int \<times> int \<times> int) option"
  parsesAsURL :: "string \<Rightarrow> bool"

section \<open>Arrays, strings and integers as JavaScript reads them\<close>

text \<open>\<open>xs[i]\<close>: \<open>undefined\<close> (here \<open>None\<close>) outside \<open>0 .. length - 1\<close>.\<close>

definition index :: "'a list \<Rightarrow> int \<Rightarrow> 'a option" where
  "index xs i = (if 0 \<le> i \<and> i < int (length xs) then Some (xs ! nat i) else None)"

text \<open>\<open>xs.splice(i, 0, x)\<close>: a negative start counts from the end, and the start is
  clamped to \<open>0 .. length\<close>.\<close>

definition splice_insert :: "int \<Rightarrow> 'a \<Rightarrow> 'a list \<Rightarrow> 'a list" where
  "splice_insert i x xs =
     (let n = int (length xs);
          k = (if i < 0 then max (n + i) 0 else min i n)
      in take (nat k) xs @ [x] @ drop (nat k) xs)"

text \<open>\<open>xs.filter((_, index) => index !== i)\<close>.\<close>

definition filter_index_neq :: "int \<Rightarrow> 'a list \<Rightarrow> 'a list" where
  "filter_index_neq i xs = map fst (filter (\<lambda>(x, k). int k \<noteq> i) (zip xs [0 ..< length xs]))"

text \<open>\<open>xs.slice(0, e)\<close> and \<open>xs.slice(-k)\<close> for \<open>k > 0\<close>.\<close>

definition slice_to :: "int \<Rightarrow> 'a list \<Rightarrow> 'a list" where
  "slice_to e xs = (if e < 0 then take (nat (int (length xs) + e)) xs else take (nat e) xs)"

definition slice_last :: "nat \<Rightarrow> 'a list \<Rightarrow> 'a list" where
  "slice_last k xs = drop (length xs - k) xs"

text \<open>\<open>String(n)\<close> for an integer \<open>n\<close>: its decimal digits, with a minus sign when
  negative.\<close>

fun digitsOf :: "nat \<Rightarrow> string" where
  "digitsOf n =
     (if n < 10 then [''0123456789'' ! n]
      else digitsOf (n div 10) @ [''0123456789'' ! (n mod 10)])"

declare digitsOf.simps [simp del]

definition intToString :: "int \<Rightarrow> string" where
  "intToString i = (if i < 0 then CHR ''-'' # digitsOf (nat (- i)) else digitsOf (nat i))"

definition isDigit :: "char \<Rightarrow> bool" where
  "isDigit c = (c \<in> set ''0123456789'')"

definition digitVal :: "char \<Rightarrow> nat" where
  "digitVal c = of_char c - 48"

text \<open>
  \<open>Number(s)\<close> on the pieces of a cell key: the empty string is \<open>0\<close>, a string of
  decimal digits is its value, and anything else is \<open>NaN\<close> (\<open>None\<close>). Keys are only
  ever built by \<open>getCellKey\<close> from integers, so no piece has a fraction, an exponent or
  surrounding white space.
\<close>

definition toNumber :: "string \<Rightarrow> int option" where
  "toNumber s =
     (if s = [] then Some 0
      else if list_all isDigit s then Some (int (foldl (\<lambda>a c. 10 * a + digitVal c) 0 s))
      else None)"

text \<open>\<open>s.split(c)\<close> for a one-character separator.\<close>

fun split :: "char \<Rightarrow> string \<Rightarrow> string list" where
  "split c [] = [[]]"
| "split c (x # xs) =
     (if x = c then [] # split c xs
      else (case split c xs of p # ps \<Rightarrow> (x # p) # ps | [] \<Rightarrow> [[x]]))"

text \<open>
  A \<open>string\<close> here is a list of one-byte characters: the code points U+0000 to U+00FF of
  a JavaScript string. White space for \<open>trim\<close>, for \<open>parseFloat\<close> and for the
  regular expression class \<open>\s\<close> is, among them: tab, line feed, vertical tab, form
  feed, carriage return, space and the no-break space U+00A0.
\<close>

definition isSpace :: "char \<Rightarrow> bool" where
  "isSpace c =
     (c \<in> set [CHR 0x09, CHR 0x0A, CHR 0x0B, CHR 0x0C, CHR 0x0D, CHR 0x20, CHR 0xA0])"

definition trim :: "string \<Rightarrow> string" where
  "trim s = rev (dropWhile isSpace (rev (dropWhile isSpace s)))"

text \<open>
  \<open>s.toLowerCase()\<close>: among the one-byte characters the upper-case letters are A to Z
  and U+00C0 to U+00DE without the multiplication sign U+00D7; each maps to the character
  32 places on.
\<close>

definition upperCaseLetters :: string where
  "upperCaseLetters =
     ''ABCDEFGHIJKLMNOPQRSTUVWXYZ'' @
     [CHR 0xC0, CHR 0xC1, CHR 0xC2, CHR 0xC3, CHR 0xC4, CHR 0xC5, CHR 0xC6, CHR 0xC7,
      CHR 0xC8, CHR 0xC9, CHR 0xCA, CHR 0xCB, CHR 0xCC, CHR 0xCD, CHR 0xCE, CHR 0xCF,
      CHR 0xD0, CHR 0xD1, CHR 0xD2, CHR 0xD3, CHR 0xD4, CHR 0xD5, CHR 0xD6,
      CHR 0xD8, CHR 0xD9, CHR 0xDA, CHR 0xDB, CHR 0xDC, CHR 0xDD, CHR 0xDE]"

definition lowerCaseLetters :: string where
  "lowerCaseLetters =
     ''abcdefghijklmnopqrstuvwxyz'' @
     [CHR 0xE0, CHR 0xE1, CHR 0xE2, CHR 0xE3, CHR 0xE4, CHR 0xE5, CHR 0xE6, CHR 0xE7,
      CHR 0xE8, CHR 0xE9, CHR 0xEA, CHR 0xEB, CHR 0xEC, CHR 0xED, CHR 0xEE, CHR 0xEF,
      CHR 0xF0, CHR 0xF1, CHR 0xF2, CHR 0xF3, CHR 0xF4, CHR 0xF5, CHR 0xF6,
      CHR 0xF8, CHR 0xF9, CHR 0xFA, CHR 0xFB, CHR 0xFC, CHR 0xFD, CHR 0xFE]"

definition toLowerCase :: "string \<Rightarrow> string" where
  "toLowerCase s =
     map (\<lambda>c. case map_of (zip upperCaseLetters lowerCaseLetters) c of
                 Some l \<Rightarrow> l | None \<Rightarrow> c) s"

definition startsWith :: "string \<Rightarrow> string \<Rightarrow> bool" where
  "startsWith s p = (take (length p) s = p)"

text \<open>\<open>s.padStart(2, '0')\<close>.\<close>

definition padStart2 :: "string \<Rightarrow> string" where
  "padStart2 s = replicate (2 - length s) (CHR ''0'') @ s"

section \<open>Cell addressing (utils/cellUtils.ts)\<close>

definition getCellKey :: "int \<Rightarrow> int \<Rightarrow> string" where
  "getCellKey r c = intToString r @ ''-'' @ intToString c"

text \<open>
  \<open>const [row, col] = key.split('-').map(Number)\<close>: the first two pieces, each
  \<open>None\<close> when it is \<open>NaN\<close> or missing (both compare false with every number).
\<close>

definition parseCellKey :: "string \<Rightarrow> int option \<times> int option" where
  "parseCellKey k =
     (let parts = map toNumber (split (CHR ''-'') k)
      in (case index parts 0 of Some (Some r) \<Rightarrow> Some r | _ \<Rightarrow> None,
          case index parts 1 of Some (Some c) \<Rightarrow> Some c | _ \<Rightarrow> None))"

section \<open>Validation and formatting (utils/cellUtils.ts)\<close>

text \<open>\<open>String(value)\<close>, \<open>!value\<close> and \<open>value === 0\<close> on a cell content.\<close>

definition toString :: "'n platform \<Rightarrow> 'n scalar \<Rightarrow> string" where
  "toString P v = (case v of Str s \<Rightarrow> s | Num n \<Rightarrow> numberToString P n)"

definition falsy :: "'n platform \<Rightarrow> 'n scalar \<Rightarrow> bool" where
  "falsy P v = (case v of Str s \<Rightarrow> s = [] | Num n \<Rightarrow> isZero P n \<or> isNaN P n)"

definition isNumberZero :: "'n platform \<Rightarrow> 'n scalar \<Rightarrow> bool" where
  "isNumberZero P v = (case v of Str s \<Rightarrow> False | Num n \<Rightarrow> isZero P n)"

definition valid :: "string \<Rightarrow> validation" where
  "valid s = \<lparr>isValid = True, error = None, formattedValue = Some s\<rparr>"

definition invalid :: "string \<Rightarrow> validation" where
  "invalid e = \<lparr>isValid = False, error = Some e, formattedValue = None\<rparr>"

text \<open>\<open>formatDate\<close> on the \<open>(getFullYear(), getMonth(), getDate())\<close> of a date.\<close>

definition formatDate :: "int \<times> int \<times> int \<Rightarrow> string \<Rightarrow> string" where
  "formatDate d fmt =
     (case d of (fullYear, monthIndex, dayOfMonth) \<Rightarrow>
        let month = padStart2 (intToString (monthIndex + 1));
            day = padStart2 (intToString dayOfMonth);
            year = intToString fullYear
        in if fmt = ''MM/DD/YYYY'' then month @ ''/'' @ day @ ''/'' @ year
           else if fmt = ''DD/MM/YYYY'' then day @ ''/'' @ month @ ''/'' @ year
           else if fmt = ''YYYY-MM-DD'' then year @ ''-'' @ month @ ''-'' @ day
           else month @ ''/'' @ day @ ''/'' @ year)"

text \<open>
  The regular expression \<open>/^[^\s@]+@[^\s@]+\.[^\s@]+$/\<close>: a non-empty run without
  white space or \<open>@\<close>, an \<open>@\<close>, and a run without white space or \<open>@\<close> that has a
  dot with at least one character on each side.
\<close>

definition emailChar :: "char \<Rightarrow> bool" where
  "emailChar c = (\<not> isSpace c \<and> c \<noteq> CHR ''@'')"

definition matchesEmail :: "string \<Rightarrow> bool" where
  "matchesEmail s =
     (takeWhile emailChar s \<noteq> [] \<and>
      (case dropWhile emailChar s of
         [] \<Rightarrow> False
       | a # domain \<Rightarrow>
           a = CHR ''@'' \<and> list_all emailChar domain \<and> CHR ''.'' \<in> set (butlast (tl domain))))"

text \<open>
  \<open>validateCellValue\<close>. The callers pass a column's \<open>type\<close>, one of the eight names,
  so the \<open>default\<close> branch of the switch is never taken. \<open>a || b\<close> takes \<open>b\<close> when
  \<open>a\<close> is absent, zero or the empty string.
\<close>

definition validateCellValue ::
  "'n platform \<Rightarrow> 'n scalar \<Rightarrow> coltype \<Rightarrow> colformat option \<Rightarrow> jsError + validation" where
  "validateCellValue P v columnType fmt =
     (if falsy P v \<and> \<not> isNumberZero P v then Inr (valid [])
      else
        let stringValue = trim (toString P v) in
        case columnType of
          Text \<Rightarrow> Inr (valid stringValue)
        | Number \<Rightarrow>
            (let num = parseFloat P stringValue in
             if isNaN P num then Inr (invalid ''Must be a valid number'')
             else
               let places = (case Option.bind fmt decimals of
                               Some d \<Rightarrow> if d = 0 then 2 else d | None \<Rightarrow> 2)
               in case toLocaleString P (Some ''en-US'') num places places of
                    Inl e \<Rightarrow> Inl e
                  | Inr s \<Rightarrow> Inr (valid s))
        | Currency \<Rightarrow>
            (let currencyNum =
                   parseFloat P (filter (\<lambda>c. c \<noteq> CHR ''$'' \<and> c \<noteq> CHR '','') stringValue) in
             if isNaN P currencyNum then Inr (invalid ''Must be a valid currency amount'')
             else
               let code = (case Option.bind fmt currency of
                             Some c \<Rightarrow> if c = [] then ''USD'' else c | None \<Rightarrow> ''USD'')
               in case formatCurrency P code currencyNum of
                    Inl e \<Rightarrow> Inl e
                  | Inr s \<Rightarrow> Inr (valid s))
        | Percentage \<Rightarrow>
            (let percentNum = parseFloat P (filter (\<lambda>c. c \<noteq> CHR ''%'') stringValue) in
             if isNaN P percentNum then Inr (invalid ''Must be a valid percentage'')
             else Inr (valid (toFixed P percentNum 1 @ ''%'')))
        | Date \<Rightarrow>
            (case parseDate P stringValue of
               None \<Rightarrow> Inr (invalid ''Must be a valid date (MM/DD/YYYY)'')
             | Some dateValue \<Rightarrow>
                 let pattern = (case Option.bind fmt dateFormat of
                                  Some f \<Rightarrow> if f = [] then ''MM/DD/YYYY'' else f
                                | None \<Rightarrow> ''MM/DD/YYYY'')
                 in Inr (valid (formatDate dateValue pattern)))
        | Email \<Rightarrow>
            (if \<not> matchesEmail stringValue then Inr (invalid ''Must be a valid email address'')
             else Inr (valid (toLowerCase stringValue)))
        | Url \<Rightarrow>
            (if parsesAsURL P
                  (if startsWith stringValue ''http'' then stringValue
                   else ''https://'' @ stringValue)
             then Inr (valid stringValue)
             else Inr (invalid ''Must be a valid URL''))
        | Boolean \<Rightarrow>
            (let boolValue = toLowerCase stringValue in
             if boolValue \<in> set [''true'', ''false'', ''yes'', ''no'', ''1'', ''0'']
             then Inr (valid (if boolValue \<in> set [''true'', ''yes'', ''1''] then ''Yes'' else ''No''))
             else Inr (invalid ''Must be Yes/No, True/False, or 1/0'')))"

section \<open>The grid store (hooks/useSpreadsheet.ts)\<close>

subsection \<open>Objects as ordered property lists\<close>

text \<open>\<open>obj[k] = v\<close> keeps the place of a property that exists and appends a new one;
  \<open>delete obj[k]\<close> removes it.\<close>

fun setProp :: "string \<Rightarrow> 'v \<Rightarrow> (string \<times> 'v) list \<Rightarrow> (string \<times> 'v) list" where
  "setProp k v [] = [(k, v)]"
| "setProp k v (kv # kvs) = (if fst kv = k then (k, v) # kvs else kv # setProp k v kvs)"

definition deleteProp :: "string \<Rightarrow> (string \<times> 'v) list \<Rightarrow> (string \<times> 'v) list" where
  "deleteProp k kvs = filter (\<lambda>kv. fst kv \<noteq> k) kvs"

definition getProp :: "(string \<times> 'v) list \<Rightarrow> string \<Rightarrow> 'v option" where
  "getProp kvs k = map_of kvs k"

subsection \<open>State updates\<close>

definition initialState :: "'n spreadsheetData \<Rightarrow> 'n spreadsheetState" where
  "initialState initialData = SpreadsheetState initialData [] None None None [] (- 1)"

definition with_data :: "'n spreadsheetData \<Rightarrow> 'n spreadsheetState \<Rightarrow> 'n spreadsheetState" where
  "with_data d s =
     SpreadsheetState d (cells s) (selectedCell s) (selectedRange s) (editingCell s)
       (history s) (historyIndex s)"

definition with_cells :: "'n cells \<Rightarrow> 'n spreadsheetState \<Rightarrow> 'n spreadsheetState" where
  "with_cells c s =
     SpreadsheetState (data s) c (selectedCell s) (selectedRange s) (editingCell s)
       (history s) (historyIndex s)"

definition with_selection ::
  "cellPosition option \<Rightarrow> cellRange option \<Rightarrow> 'n spreadsheetState \<Rightarrow> 'n spreadsheetState" where
  "with_selection c r s =
     SpreadsheetState (data s) (cells s) c r (editingCell s) (history s) (historyIndex s)"

definition with_editingCell ::
  "cellPosition option \<Rightarrow> 'n spreadsheetState \<Rightarrow> 'n spreadsheetState" where
  "with_editingCell e s =
     SpreadsheetState (data s) (cells s) (selectedCell s) (selectedRange s) e
       (history s) (historyIndex s)"

text \<open>\<open>{ ...snapshot, history: h, historyIndex: i }\<close>, the state UNDO and REDO build.\<close>

definition restore ::
  "'n spreadsheetState \<Rightarrow> 'n spreadsheetState list \<Rightarrow> int \<Rightarrow> 'n spreadsheetState" where
  "restore snapshot h i =
     SpreadsheetState (data snapshot) (cells snapshot) (selectedCell snapshot)
       (selectedRange snapshot) (editingCell snapshot) h i"

definition saveToHistory :: "'n spreadsheetState \<Rightarrow> 'n spreadsheetState" where
  "saveToHistory currentState =
     (let newHistory =
            slice_to (historyIndex currentState + 1) (history currentState) @ [currentState]
      in SpreadsheetState (data currentState) (cells currentState) (selectedCell currentState)
           (selectedRange currentState) (editingCell currentState)
           (slice_last 50 newHistory) (int (length newHistory) - 1))"

text \<open>What the code keeps of the history: the index runs from \<open>-1\<close> up to the length
  (the length included), and there are at most 50 entries.\<close>

definition historyInvariant :: "'n spreadsheetState \<Rightarrow> bool" where
  "historyInvariant s =
     (- 1 \<le> historyIndex s \<and> historyIndex s \<le> int (length (history s)) \<and>
      length (history s) \<le> 50)"

subsection \<open>Pieces of dispatch\<close>

text \<open>\<open>{ ...cells[key], value: v }\<close>.\<close>

definition withValue :: "'n cell option \<Rightarrow> 'n scalar \<Rightarrow> 'n cell" where
  "withValue existing v =
     (case existing of
        None \<Rightarrow> \<lparr>cell_value = v, cell_style = None, cell_formula = None\<rparr>
      | Some c \<Rightarrow> c\<lparr>cell_value := v\<rparr>)"

text \<open>\<open>cells[key] || { value: '' }\<close>.\<close>

definition existingCell :: "'n cell option \<Rightarrow> 'n cell" where
  "existingCell existing =
     (case existing of
        None \<Rightarrow> \<lparr>cell_value = Str [], cell_style = None, cell_formula = None\<rparr>
      | Some c \<Rightarrow> c)"

definition emptyStyle :: cellStyle where
  "emptyStyle = \<lparr>bold = None, italic = None, textAlign = None, backgroundColor = None\<rparr>"

text \<open>\<open>{ ...a, ...b }\<close> on styles: a field of \<open>b\<close> that is present wins.\<close>

definition mergeStyle :: "cellStyle option \<Rightarrow> cellStyle \<Rightarrow> cellStyle" where
  "mergeStyle a b =
     (let a' = (case a of None \<Rightarrow> emptyStyle | Some st \<Rightarrow> st)
      in \<lparr>bold = (case bold b of Some x \<Rightarrow> Some x | None \<Rightarrow> bold a'),
          italic = (case italic b of Some x \<Rightarrow> Some x | None \<Rightarrow> italic a'),
          textAlign = (case textAlign b of Some x \<Rightarrow> Some x | None \<Rightarrow> textAlign a'),
          backgroundColor =
            (case backgroundColor b of Some x \<Rightarrow> Some x | None \<Rightarrow> backgroundColor a')\<rparr>)"

text \<open>\<open>validation.formattedValue || operation.value\<close>.\<close>

definition finalValue :: "validation \<Rightarrow> 'n scalar \<Rightarrow> 'n scalar" where
  "finalValue validation v =
     (case formattedValue validation of
        Some f \<Rightarrow> if f = [] then v else Str f
      | None \<Rightarrow> v)"

text \<open>
  The body of the \<open>forEach\<close> over \<open>Object.keys(newCells)\<close> in DELETE_COLUMN and in
  DELETE_ROW: it rewrites \<open>newCells\<close> while it walks the keys listed before the walk. Keys
  built by \<open>getCellKey\<close> always have two pieces, so a piece that is not a number prints as
  NaN. The key being visited is still a property (only its own visit deletes it).
\<close>

definition shiftColumnKey :: "int \<Rightarrow> string \<Rightarrow> 'n cells \<Rightarrow> 'n cells" where
  "shiftColumnKey idx cellKey newCells =
     (case parseCellKey cellKey of
        (cellRow, cellCol) \<Rightarrow>
          (case cellCol of
             None \<Rightarrow> newCells
           | Some c \<Rightarrow>
               if c = idx then deleteProp cellKey newCells
               else if c > idx then
                 (let newKey = (case cellRow of
                                  Some r \<Rightarrow> getCellKey r (c - 1)
                                | None \<Rightarrow> ''NaN-'' @ intToString (c - 1))
                  in case getProp newCells cellKey of
                       Some v \<Rightarrow> deleteProp cellKey (setProp newKey v newCells)
                     | None \<Rightarrow> deleteProp cellKey newCells)
               else newCells))"

definition shiftRowKey :: "int \<Rightarrow> string \<Rightarrow> 'n cells \<Rightarrow> 'n cells" where
  "shiftRowKey idx cellKey newCells =
     (case parseCellKey cellKey of
        (cellRow, cellCol) \<Rightarrow>
          (case cellRow of
             None \<Rightarrow> newCells
           | Some r \<Rightarrow>
               if r = idx then deleteProp cellKey newCells
               else if r > idx then
                 (let newKey = (case cellCol of
                                  Some c \<Rightarrow> getCellKey (r - 1) c
                                | None \<Rightarrow> intToString (r - 1) @ ''-NaN'')
                  in case getProp newCells cellKey of
                       Some v \<Rightarrow> deleteProp cellKey (setProp newKey v newCells)
                     | None \<Rightarrow> deleteProp cellKey newCells)
               else newCells))"

definition shiftColumns :: "int \<Rightarrow> 'n cells \<Rightarrow> 'n cells" where
  "shiftColumns idx cs = fold (shiftColumnKey idx) (map fst cs) cs"

definition shiftRows :: "int \<Rightarrow> 'n cells \<Rightarrow> 'n cells" where
  "shiftRows idx cs = fold (shiftRowKey idx) (map fst cs) cs"

subsection \<open>dispatch\<close>

text \<open>
  \<open>dispatch P now operation prevState\<close> is the state updater that \<open>dispatch\<close> hands to
  \<open>setState\<close>, with \<open>Inl\<close> for an exception thrown while it runs; \<open>now\<close> is the
  reading of \<open>Date.now()\<close>, which only ADD_COLUMN takes. SORT_COLUMN has no case in the
  switch. UNDO and REDO spread the snapshot they index; an index outside the history would
  leave a state without \<open>data\<close>, on which the render that follows throws: that branch is
  \<open>Inl TypeError\<close> here, and no state reached from the initial one takes it.
\<close>

fun dispatch ::
  "'n platform \<Rightarrow> int \<Rightarrow> 'n cellOperation \<Rightarrow> 'n spreadsheetState \<Rightarrow> jsError + 'n spreadsheetState"
where
  "dispatch P now (SET_VALUE position v) newState =
     (let key = getCellKey (row position) (col position);
          column = index (columns (data newState)) (col position)
      in case column of
           Some cl \<Rightarrow>
             if v \<noteq> Str [] then
               (case validateCellValue P v (col_type cl) (col_format cl) of
                  Inl e \<Rightarrow> Inl e
                | Inr validation \<Rightarrow>
                    Inr (saveToHistory
                      (with_cells
                        (setProp key
                          (withValue (getProp (cells newState) key) (finalValue validation v))
                          (cells newState))
                        newState)))
             else
               Inr (saveToHistory
                 (with_cells
                   (setProp key (withValue (getProp (cells newState) key) v) (cells newState))
                   newState))
         | None \<Rightarrow>
             Inr (saveToHistory
               (with_cells
                 (setProp key (withValue (getProp (cells newState) key) v) (cells newState))
                 newState)))"
| "dispatch P now (SET_STYLE position st) newState =
     (let key = getCellKey (row position) (col position);
          existing = existingCell (getProp (cells newState) key)
      in Inr (with_cells
           (setProp key (existing\<lparr>cell_style := Some (mergeStyle (cell_style existing) st)\<rparr>)
             (cells newState))
           newState))"
| "dispatch P now (SET_FORMULA position formula) newState =
     (let key = getCellKey (row position) (col position);
          existing = existingCell (getProp (cells newState) key)
      in Inr (saveToHistory
           (with_cells
             (setProp key (existing\<lparr>cell_formula := Some formula\<rparr>) (cells newState))
             newState)))"
| "dispatch P now (ADD_COLUMN idx nm) newState =
     (let d = data newState;
          newColumnKey = ''column_'' @ intToString now;
          fallback = ''Column '' @ intToString (int (length (columns d)) + 1);
          newColumn = \<lparr>col_key = newColumnKey,
                       col_name = (case nm of
                                     Some n \<Rightarrow> if n = [] then fallback else n
                                   | None \<Rightarrow> fallback),
                       col_type = Text,
                       col_format = None\<rparr>;
          insertIndex = (case idx of Some i \<Rightarrow> i | None \<Rightarrow> int (length (columns d)));
          newColumns = splice_insert insertIndex newColumn (columns d);
          newItems = map (\<lambda>item. item(newColumnKey \<mapsto> Str [])) (items d)
      in Inr (saveToHistory (with_data (d\<lparr>columns := newColumns, items := newItems\<rparr>) newState)))"
| "dispatch P now (ADD_ROW idx) newState =
     (let d = data newState;
          newRow = fold (\<lambda>column r. r(col_key column \<mapsto> Str [])) (columns d) Map.empty;
          insertIndex = (case idx of Some i \<Rightarrow> i | None \<Rightarrow> int (length (items d)));
          newItems = splice_insert insertIndex newRow (items d)
      in Inr (saveToHistory (with_data (d\<lparr>items := newItems\<rparr>) newState)))"
| "dispatch P now (DELETE_COLUMN idx) newState =
     (let d = data newState in
      if idx < int (length (columns d)) then
        (let columnToDelete = index (columns d) idx;
             newColumns = filter_index_neq idx (columns d)
         in case (if items d = [] then Inr []
                  else (case columnToDelete of
                          None \<Rightarrow> Inl TypeError
                        | Some cl \<Rightarrow> Inr (map (\<lambda>item. item(col_key cl := None)) (items d)))) of
              Inl e \<Rightarrow> Inl e
            | Inr newItems \<Rightarrow>
                Inr (saveToHistory
                  (with_cells (shiftColumns idx (cells newState))
                    (with_data (d\<lparr>columns := newColumns, items := newItems\<rparr>) newState))))
      else Inr newState)"
| "dispatch P now (DELETE_ROW idx) newState =
     (let d = data newState in
      if idx < int (length (items d)) then
        (let newItems = filter_index_neq idx (items d)
         in Inr (saveToHistory
              (with_cells (shiftRows idx (cells newState))
                (with_data (d\<lparr>items := newItems\<rparr>) newState))))
      else Inr newState)"
| "dispatch P now (SELECT_CELL position) newState =
     Inr (with_selection (Some position) None newState)"
| "dispatch P now (SELECT_RANGE rng) newState =
     Inr (with_selection None (Some rng) newState)"
| "dispatch P now (START_EDITING position) newState =
     Inr (with_editingCell (Some position) newState)"
| "dispatch P now STOP_EDITING newState = Inr (with_editingCell None newState)"
| "dispatch P now (UPDATE_COLUMN_NAME columnIndex newName) newState =
     (let d = data newState in
      if 0 \<le> columnIndex \<and> columnIndex < int (length (columns d)) then
        (let updatedColumns =
               (columns d)[nat columnIndex := (columns d ! nat columnIndex)\<lparr>col_name := newName\<rparr>]
         in Inr (saveToHistory (with_data (d\<lparr>columns := updatedColumns\<rparr>) newState)))
      else Inr newState)"
| "dispatch P now (UPDATE_COLUMN_TYPE columnIndex columnType fmt) newState =
     (let d = data newState in
      if 0 \<le> columnIndex \<and> columnIndex < int (length (columns d)) then
        (let updatedColumns =
               (columns d)[nat columnIndex := (columns d ! nat columnIndex)
                  \<lparr>col_type := columnType,
                   col_format := Some (case fmt of
                                         Some f \<Rightarrow> f
                                       | None \<Rightarrow> \<lparr>decimals = None, currency = None,
                                                   dateFormat = None\<rparr>)\<rparr>]
         in Inr (saveToHistory (with_data (d\<lparr>columns := updatedColumns\<rparr>) newState)))
      else Inr newState)"
| "dispatch P now (SORT_COLUMN columnIndex direction) newState = Inr newState"
| "dispatch P now UNDO newState =
     (if historyIndex newState > 0 then
        (case index (history newState) (historyIndex newState - 1) of
           None \<Rightarrow> Inl TypeError
         | Some previousState \<Rightarrow>
             Inr (restore previousState (history newState) (historyIndex newState - 1)))
      else Inr newState)"
| "dispatch P now REDO newState =
     (if historyIndex newState < int (length (history newState)) - 1 then
        (case index (history newState) (historyIndex newState + 1) of
           None \<Rightarrow> Inl TypeError
         | Some nextState \<Rightarrow>
             Inr (restore nextState (history newState) (historyIndex newState + 1)))
      else Inr newState)"

declare dispatch.simps [simp del]

text \<open>
  Successive \<open>dispatch\<close> calls: React applies the queued updaters in order, each to the
  state the one before returned. One clock reading serves the whole sequence.
\<close>

fun dispatchAll ::
  "'n platform \<Rightarrow> int \<Rightarrow> 'n cellOperation list \<Rightarrow> 'n spreadsheetState
     \<Rightarrow> jsError + 'n spreadsheetState"
where
  "dispatchAll P now [] s = Inr s"
| "dispatchAll P now (operation # ops) s =
     (case dispatch P now operation s of
        Inl e \<Rightarrow> Inl e
      | Inr s' \<Rightarrow> dispatchAll P now ops s')"

subsection \<open>Read accessors\<close>

text \<open>
  \<open>getCellRawValue\<close>: the bounds test has no lower limit, so with a negative row or
  column index and no override at the cell \<open>item[column.key]\<close> reads a property of
  \<open>undefined\<close> and throws a TypeError.
\<close>

definition getCellRawValue ::
  "'n platform \<Rightarrow> 'n spreadsheetState \<Rightarrow> int \<Rightarrow> int \<Rightarrow> jsError + 'n scalar" where
  "getCellRawValue P state r c =
     (case getProp (cells state) (getCellKey r c) of
        Some cell \<Rightarrow> Inr (cell_value cell)
      | None \<Rightarrow>
          if r < int (length (items (data state))) \<and> c < int (length (columns (data state)))
          then
            (case index (columns (data state)) c of
               None \<Rightarrow> Inl TypeError
             | Some column \<Rightarrow>
                 (case index (items (data state)) r of
                    None \<Rightarrow> Inl TypeError
                  | Some item \<Rightarrow>
                      (case item (col_key column) of
                         None \<Rightarrow> Inr (Str [])
                       | Some v \<Rightarrow> Inr (if falsy P v then Str [] else v))))
          else Inr (Str []))"

definition getCellDisplayValue ::
  "'n platform \<Rightarrow> 'n spreadsheetState \<Rightarrow> int \<Rightarrow> int \<Rightarrow> jsError + string" where
  "getCellDisplayValue P state r c =
     (case getCellRawValue P state r c of
        Inl e \<Rightarrow> Inl e
      | Inr rawValue \<Rightarrow>
          (case (if c < int (length (columns (data state)))
                 then index (columns (data state)) c else None) of
             Some column \<Rightarrow>
               (case rawValue of
                  Num n \<Rightarrow>
                    if col_type column = Number \<or> col_type column = Currency
                    then toLocaleString P None n 0 2
                    else Inr (toString P rawValue)
                | Str s \<Rightarrow> Inr (toString P rawValue))
           | None \<Rightarrow> Inr (toString P rawValue)))"

definition getCellStyle :: "'n spreadsheetState \<Rightarrow> int \<Rightarrow> int \<Rightarrow> cellStyle" where
  "getCellStyle state r c =
     (case getProp (cells state) (getCellKey r c) of
        Some cell \<Rightarrow> (case cell_style cell of Some st \<Rightarrow> st | None \<Rightarrow> emptyStyle)
      | None \<Rightarrow> emptyStyle)"

section \<open>Range move (components/Spreadsheet.tsx, handleMouseUp)\<close>

record cellDatum =
  sourcePos :: cellPosition
  targetPos :: cellPosition
  moved_value :: string
  moved_style :: cellStyle

text \<open>The cells the two nested loops visit, in their order.\<close>

definition rangePositions :: "int \<Rightarrow> int \<Rightarrow> int \<Rightarrow> int \<Rightarrow> (int \<times> int) list" where
  "rangePositions minRow maxRow minCol maxCol =
     concat (map (\<lambda>r. map (\<lambda>c. (r, c)) [minCol .. maxCol]) [minRow .. maxRow])"

text \<open>
  The loop body: the bounds check on the target comes first, and only inside it are the
  display value and style read and, for a non-empty value, the cell collected.
\<close>

fun collectCellData ::
  "'n platform \<Rightarrow> 'n spreadsheetState \<Rightarrow> int \<Rightarrow> int \<Rightarrow> (int \<times> int) list
     \<Rightarrow> jsError + cellDatum list"
where
  "collectCellData P state rowOffset colOffset [] = Inr []"
| "collectCellData P state rowOffset colOffset (rc # rest) =
     (let newRow = fst rc + rowOffset; newCol = snd rc + colOffset in
      if 0 \<le> newRow \<and> newRow < int (length (items (data state))) \<and>
         0 \<le> newCol \<and> newCol < int (length (columns (data state)))
      then
        (case getCellDisplayValue P state (fst rc) (snd rc) of
           Inl e \<Rightarrow> Inl e
         | Inr v \<Rightarrow>
             (case collectCellData P state rowOffset colOffset rest of
                Inl e \<Rightarrow> Inl e
              | Inr cellData \<Rightarrow>
                  if v \<noteq> [] then
                    Inr (\<lparr>sourcePos = \<lparr>row = fst rc, col = snd rc\<rparr>,
                          targetPos = \<lparr>row = newRow, col = newCol\<rparr>,
                          moved_value = v,
                          moved_style = getCellStyle state (fst rc) (snd rc)\<rparr> # cellData)
                  else Inr cellData))
      else collectCellData P state rowOffset colOffset rest)"

text \<open>
  The move branch of \<open>handleMouseUp\<close>: \<open>sourceRow\<close> and \<open>sourceCol\<close> are the numbers
  read back from \<open>draggedCellId\<close>, the key of the cell the drag started on.
\<close>

definition moveRange ::
  "'n platform \<Rightarrow> int \<Rightarrow> 'n spreadsheetState \<Rightarrow> cellRange \<Rightarrow> int \<Rightarrow> int \<Rightarrow> int \<Rightarrow> int
     \<Rightarrow> jsError + 'n spreadsheetState" where
  "moveRange P now state draggedRange sourceRow sourceCol dropRow dropCol =
     (let start = range_start draggedRange;
          stop = range_end draggedRange;
          minRow = min (row start) (row stop);
          maxRow = max (row start) (row stop);
          minCol = min (col start) (col stop);
          maxCol = max (col start) (col stop);
          rowOffset = dropRow - sourceRow;
          colOffset = dropCol - sourceCol
      in case collectCellData P state rowOffset colOffset
                (rangePositions minRow maxRow minCol maxCol) of
           Inl e \<Rightarrow> Inl e
         | Inr cellData \<Rightarrow>
             dispatchAll P now
               (map (\<lambda>cell. SET_VALUE (sourcePos cell) (Str [])) cellData
                @ concat (map (\<lambda>cell. [SET_VALUE (targetPos cell) (Str (moved_value cell)),
                                        SET_STYLE (targetPos cell) (moved_style cell)]) cellData)
                @ [SELECT_RANGE
                     \<lparr>range_start = \<lparr>row = minRow + rowOffset, col = minCol + colOffset\<rparr>,
                      range_end = \<lparr>row = maxRow + rowOffset, col = maxCol + colOffset\<rparr>\<rparr>])
               state)"

section \<open>A concrete host and the test data\<close>

text \<open>
  The closed theorems below need a host to run on. \<open>testHost\<close> is a stand-in whose
  numbers are the integers and NaN. On the strings those theorems hand it, it returns what
  the JavaScript host returns: \<open>parseFloat\<close> reads an optional sign and the decimal
  digits that follow (a string with a fraction, an exponent or the word Infinity is outside
  the stand-in),
  \<open>toLocaleString\<close> groups thousands with commas and prints the requested number of
  zero fraction digits, throwing a RangeError for digit counts outside 0 .. 100 or a maximum
  below the minimum, and US dollars print as \<open>$1,234.00\<close>. Other currencies,
  dates and URLs are outside the stand-in (it prints the code for the first and parses none
  of the others); no theorem below evaluates it there.
\<close>

datatype wholeNumber = NaN | Whole int

fun commas :: "string \<Rightarrow> string" where
  "commas (a # b # c # d # rest) = a # b # c # CHR '','' # commas (d # rest)"
| "commas ds = ds"

definition groupThousands :: "int \<Rightarrow> string" where
  "groupThousands i =
     (if i < 0 then ''-'' else []) @ rev (commas (rev (digitsOf (nat (abs i)))))"

definition fractionZeros :: "int \<Rightarrow> string" where
  "fractionZeros k = (if 0 < k then CHR ''.'' # replicate (nat k) (CHR ''0'') else [])"

definition leadingWhole :: "string \<Rightarrow> wholeNumber" where
  "leadingWhole s =
     (let t = dropWhile isSpace s;
          negative = (take 1 t = ''-'');
          u = (if take 1 t = ''-'' \<or> take 1 t = ''+'' then drop 1 t else t);
          ds = takeWhile isDigit u
      in if ds = [] then NaN
         else Whole ((if negative then - 1 else 1)
                      * int (foldl (\<lambda>a c. 10 * a + digitVal c) 0 ds)))"

definition testHost :: "wholeNumber platform" where
  "testHost =
     \<lparr>isNaN = (\<lambda>n. n = NaN),
      isZero = (\<lambda>n. n = Whole 0),
      numberToString = (\<lambda>n. case n of NaN \<Rightarrow> ''NaN'' | Whole i \<Rightarrow> intToString i),
      parseFloat = leadingWhole,
      toLocaleString = (\<lambda>loc n lo hi.
         if lo < 0 \<or> 100 < lo \<or> hi < 0 \<or> 100 < hi \<or> hi < lo then Inl RangeError
         else Inr (case n of NaN \<Rightarrow> ''NaN''
                   | Whole i \<Rightarrow> groupThousands i @ fractionZeros lo)),
      formatCurrency = (\<lambda>code n.
         if length code \<noteq> 3 then Inl RangeError
         else Inr (case n of NaN \<Rightarrow> ''NaN''
                   | Whole i \<Rightarrow>
                       (if i < 0 then ''-'' else [])
                       @ (if code = ''USD'' then ''$'' else code @ '' '')
                       @ groupThousands (abs i) @ fractionZeros 2)),
      toFixed = (\<lambda>n k. case n of NaN \<Rightarrow> ''NaN''
                         | Whole i \<Rightarrow> intToString i @ fractionZeros k),
      parseDate = (\<lambda>s. None),
      parsesAsURL = (\<lambda>s. False)\<rparr>"

text \<open>The data of the hook's own tests (their \<open>mockData\<close>).\<close>

definition mockData :: "wholeNumber spreadsheetData" where
  "mockData =
     \<lparr>columns =
        [\<lparr>col_key = ''product'', col_name = ''product'', col_type = Text, col_format = None\<rparr>,
         \<lparr>col_key = ''2020'', col_name = ''2020'', col_type = Currency, col_format = None\<rparr>,
         \<lparr>col_key = ''2021'', col_name = ''2021'', col_type = Currency, col_format = None\<rparr>],
      items =
        [[''product'' \<mapsto> Str ''Widget A'', ''2020'' \<mapsto> Num (Whole 100),
          ''2021'' \<mapsto> Num (Whole 150)],
         [''product'' \<mapsto> Str ''Widget B'', ''2020'' \<mapsto> Num (Whole 200),
          ''2021'' \<mapsto> Num (Whole 250)]]\<rparr>"




text \<open>
  A second dataset, three rows by three columns, all values strings: a text column, a number
  column and another text column.
\<close>

definition stockData :: "wholeNumber spreadsheetData" where
  "stockData =
     \<lparr>columns =
        [\<lparr>col_key = ''code'', col_name = ''code'', col_type = Text, col_format = None\<rparr>,
         \<lparr>col_key = ''qty'', col_name = ''qty'', col_type = Number, col_format = None\<rparr>,
         \<lparr>col_key = ''note'', col_name = ''note'', col_type = Text, col_format = None\<rparr>],
      items =
        [[''code'' \<mapsto> Str ''12'', ''qty'' \<mapsto> Str ''5'', ''note'' \<mapsto> Str ''a''],
         [''code'' \<mapsto> Str ''34'', ''qty'' \<mapsto> Str ''7'', ''note'' \<mapsto> Str ''b''],
         [''code'' \<mapsto> Str ''56'', ''qty'' \<mapsto> Str ''9'', ''note'' \<mapsto> Str ''c'']]\<rparr>"

text \<open>The same rows under three text columns.\<close>

definition labelData :: "wholeNumber spreadsheetData" where
  "labelData =
     \<lparr>columns =
        [\<lparr>col_key = ''code'', col_name = ''code'', col_type = Text, col_format = None\<rparr>,
         \<lparr>col_key = ''qty'', col_name = ''qty'', col_type = Text, col_format = None\<rparr>,
         \<lparr>col_key = ''note'', col_name = ''note'', col_type = Text, col_format = None\<rparr>],
      items = items stockData\<rparr>"

text \<open>
  The drag of the range \<open>[(0,0),(1,1)]\<close> by one row and one column, started on cell
  \<open>(0,0)\<close> and dropped on cell \<open>(1,1)\<close>, on each dataset.
\<close>

definition dragged :: cellRange where
  "dragged = \<lparr>range_start = \<lparr>row = 0, col = 0\<rparr>, range_end = \<lparr>row = 1, col = 1\<rparr>\<rparr>"

definition movedMock :: "wholeNumber spreadsheetState" where
  "movedMock =
     (case moveRange testHost 0 (initialState mockData) dragged 0 0 1 1 of
        Inl e \<Rightarrow> initialState mockData
      | Inr s \<Rightarrow> s)"


section \<open>Evaluation rules for the closed theorems\<close>

lemma replicate_numeral: "replicate (numeral k) x = x # replicate (pred_numeral k) x"
  by (simp add: numeral_eq_Suc)

text \<open>\<open>filter((_, index) => index !== i)\<close> drops the element at \<open>i\<close>, if there is one.\<close>

lemma filter_index_from:
  "map fst (filter (\<lambda>(x, k). int k \<noteq> i) (zip xs [n ..< n + length xs])) =
     (if int n \<le> i \<and> i < int (n + length xs)
      then take (nat i - n) xs @ drop (Suc (nat i - n)) xs else xs)"
proof (induction xs arbitrary: n)
  case Nil
  then show ?case by simp
next
  case (Cons x xs)
  have upt: "[n ..< n + length (x # xs)] = n # [Suc n ..< Suc n + length xs]"
    by (subst upt_conv_Cons) simp_all
  have unfold: "map fst (filter (\<lambda>(x, k). int k \<noteq> i) (zip (x # xs) [n ..< n + length (x # xs)])) =
      (if int n \<noteq> i then [x] else []) @
      map fst (filter (\<lambda>(x, k). int k \<noteq> i) (zip xs [Suc n ..< Suc n + length xs]))"
    by (simp only: upt zip_Cons_Cons filter.simps list.map) simp
  have step: "map fst (filter (\<lambda>(x, k). int k \<noteq> i) (zip (x # xs) [n ..< n + length (x # xs)])) =
      (if int n \<noteq> i then [x] else []) @
      (if int (Suc n) \<le> i \<and> i < int (Suc n + length xs)
       then take (nat i - Suc n) xs @ drop (Suc (nat i - Suc n)) xs else xs)"
    by (simp only: unfold Cons.IH [of "Suc n"])
  show ?case
  proof (cases "int n < i \<and> i < int (n + length (x # xs))")
    case True
    then have "nat i - n = Suc (nat i - Suc n)" by linarith
    with True show ?thesis
      unfolding step by auto
  next
    case False
    then show ?thesis
      unfolding step by auto
  qed
qed

lemma filter_index_neq_eq:
  "filter_index_neq i xs =
     (if 0 \<le> i \<and> i < int (length xs) then take (nat i) xs @ drop (Suc (nat i)) xs else xs)"
  using filter_index_from [of i xs 0] by (simp add: filter_index_neq_def)

lemmas host_simps = testHost_def leadingWhole_def groupThousands_def fractionZeros_def
  isSpace_def isDigit_def digitVal_def intToString_def digitsOf.simps replicate_numeral

lemmas eval_simps = host_simps mockData_def stockData_def labelData_def initialState_def getCellKey_def
  index_def getProp_def withValue_def existingCell_def with_cells_def with_data_def
  with_selection_def saveToHistory_def slice_to_def slice_last_def restore_def
  validateCellValue_def falsy_def isNumberZero_def toString_def trim_def valid_def invalid_def
  finalValue_def getCellRawValue_def getCellDisplayValue_def getCellStyle_def mergeStyle_def
  emptyStyle_def dispatch.simps Let_def

lemmas shift_simps = shiftColumns_def shiftColumnKey_def shiftRows_def shiftRowKey_def
  parseCellKey_def toNumber_def deleteProp_def filter_index_neq_eq

section \<open>Cell keys\<close>

subsection \<open>Decoding inverts encoding\<close>

lemma digit_char_props:
  "d < 10 \<Longrightarrow> isDigit (''0123456789'' ! d) \<and> digitVal (''0123456789'' ! d) = d \<and> ''0123456789'' ! d \<noteq> CHR ''-''"
proof -
  assume "d < 10"
  then consider "d = 0" | "d = 1" | "d = 2" | "d = 3" | "d = 4" | "d = 5" | "d = 6" | "d = 7" | "d = 8" | "d = 9"
    by atomize_elim arith
  then show ?thesis
    by cases (simp_all add: isDigit_def digitVal_def)
qed

lemma digitsOf_nonempty: "digitsOf n \<noteq> []"
  by (subst digitsOf.simps) simp

lemma digitsOf_digits: "list_all isDigit (digitsOf n)"
proof (induction n rule: digitsOf.induct)
  case (1 n)
  show ?case
  proof (cases "n < 10")
    case True
    then show ?thesis by (subst digitsOf.simps) (simp add: digit_char_props)
  next
    case False
    then have "list_all isDigit (digitsOf (n div 10))" using 1 by simp
    moreover have "isDigit (''0123456789'' ! (n mod 10))" by (simp add: digit_char_props)
    ultimately show ?thesis using False by (subst digitsOf.simps) simp
  qed
qed

lemma isDigit_not_dash: "isDigit c \<Longrightarrow> c \<noteq> CHR ''-''"
  by (auto simp: isDigit_def)

lemma digits_no_dash: "list_all isDigit s \<Longrightarrow> CHR ''-'' \<notin> set s"
  by (induction s) (auto dest: isDigit_not_dash)

lemma digitsOf_no_dash: "CHR ''-'' \<notin> set (digitsOf n)"
  by (rule digits_no_dash) (rule digitsOf_digits)

lemma digitsOf_value: "foldl (\<lambda>a c. 10 * a + digitVal c) 0 (digitsOf n) = n"
proof (induction n rule: digitsOf.induct)
  case (1 n)
  show ?case
  proof (cases "n < 10")
    case True
    then show ?thesis by (subst digitsOf.simps) (simp add: digit_char_props)
  next
    case False
    then have "foldl (\<lambda>a c. 10 * a + digitVal c) 0 (digitsOf (n div 10)) = n div 10" using 1 by simp
    then show ?thesis using False by (subst digitsOf.simps) (simp add: digit_char_props)
  qed
qed

lemma toNumber_digitsOf: "toNumber (digitsOf n) = Some (int n)"
  by (simp add: toNumber_def digitsOf_nonempty digitsOf_digits digitsOf_value)

lemma split_no_sep: "c \<notin> set s \<Longrightarrow> split c s = [s]"
  by (induction s) auto

lemma split_at_sep: "c \<notin> set s \<Longrightarrow> split c (s @ c # t) = s # split c t"
  by (induction s) auto

lemma getCellKey_nat:
  "getCellKey (int r) (int c) = digitsOf r @ CHR ''-'' # digitsOf c"
  by (simp add: getCellKey_def intToString_def)

lemma parseCellKey_getCellKey_nat:
  "parseCellKey (getCellKey (int r) (int c)) = (Some (int r), Some (int c))"
  by (simp add: getCellKey_nat parseCellKey_def split_at_sep split_no_sep digitsOf_no_dash
      index_def toNumber_digitsOf)

text \<open>
  Claim C8. For all non-negative integers \<open>r\<close> and \<open>c\<close>, \<open>parseCellKey\<close> applied
  to \<open>getCellKey r c\<close> gives back \<open>r\<close> and \<open>c\<close>. Neither function looks at the
  dataset, so no bounds are checked at this layer.
\<close>

theorem parseCellKey_getCellKey:
  "0 \<le> r \<Longrightarrow> 0 \<le> c \<Longrightarrow> parseCellKey (getCellKey r c) = (Some r, Some c)"
  using parseCellKey_getCellKey_nat [of "nat r" "nat c"] by simp

theorem parseCellKey_getCellKey_witness:
  "(0::int) \<le> 3 \<and> (0::int) \<le> 12 \<and> parseCellKey (getCellKey 3 12) = (Some 3, Some 12) \<and> getCellKey 3 12 = ''3-12''"
  using parseCellKey_getCellKey [of 3 12] by (simp add: getCellKey_def intToString_def digitsOf.simps)

subsection \<open>Keys of different cells differ\<close>

lemma append_sep_eq:
  "c \<notin> set xs \<Longrightarrow> c \<notin> set xs' \<Longrightarrow> xs @ c # ys = xs' @ c # ys' \<Longrightarrow> xs = xs' \<and> ys = ys'"
proof (induction xs arbitrary: xs')
  case Nil
  then show ?case by (cases xs') auto
next
  case (Cons x xs)
  then show ?case by (cases xs') auto
qed

lemma digitsOf_inj: "digitsOf m = digitsOf n \<Longrightarrow> m = n"
  by (metis digitsOf_value)

lemma digitsOf_hd_not_dash: "hd (digitsOf n) \<noteq> CHR ''-''"
  using digitsOf_no_dash [of n] digitsOf_nonempty [of n] by (cases "digitsOf n") auto

lemma intToString_nonempty: "intToString i \<noteq> []"
  by (simp add: intToString_def digitsOf_nonempty)

lemma intToString_tl_no_dash: "CHR ''-'' \<notin> set (tl (intToString i))"
proof -
  have "set (tl (digitsOf (nat i))) \<subseteq> set (digitsOf (nat i))"
    by (cases "digitsOf (nat i)") auto
  then show ?thesis
    using digitsOf_no_dash [of "nat i"] digitsOf_no_dash [of "nat (- i)"]
    by (auto simp: intToString_def)
qed

lemma intToString_inj: "intToString i = intToString j \<Longrightarrow> i = j"
proof -
  assume eq: "intToString i = intToString j"
  have neg: "i < 0 \<longleftrightarrow> j < 0"
  proof (rule ccontr)
    assume "\<not> ?thesis"
    then consider "i < 0" "\<not> j < 0" | "\<not> i < 0" "j < 0" by blast
    then show False
    proof cases
      case 1
      with eq have "CHR ''-'' # digitsOf (nat (- i)) = digitsOf (nat j)"
        by (simp add: intToString_def)
      then have "hd (digitsOf (nat j)) = CHR ''-''" by (metis list.sel(1))
      then show False by (simp add: digitsOf_hd_not_dash)
    next
      case 2
      with eq have "digitsOf (nat i) = CHR ''-'' # digitsOf (nat (- j))"
        by (simp add: intToString_def)
      then have "hd (digitsOf (nat i)) = CHR ''-''" by simp
      then show False by (simp add: digitsOf_hd_not_dash)
    qed
  qed
  show "i = j"
  proof (cases "i < 0")
    case True
    with neg eq have "digitsOf (nat (- i)) = digitsOf (nat (- j))" by (simp add: intToString_def)
    then have "nat (- i) = nat (- j)" by (rule digitsOf_inj)
    with True neg show ?thesis by simp
  next
    case False
    with neg eq have "digitsOf (nat i) = digitsOf (nat j)" by (simp add: intToString_def)
    then have "nat i = nat j" by (rule digitsOf_inj)
    with False neg show ?thesis by simp
  qed
qed

lemma getCellKey_inj: "getCellKey r c = getCellKey r' c' \<longleftrightarrow> r = r' \<and> c = c'"
proof
  assume eq: "getCellKey r c = getCellKey r' c'"
  obtain x xs where r: "intToString r = x # xs"
    using intToString_nonempty [of r] by (cases "intToString r") auto
  obtain y ys where r': "intToString r' = y # ys"
    using intToString_nonempty [of r'] by (cases "intToString r'") auto
  from intToString_tl_no_dash [of r] r have xs: "CHR ''-'' \<notin> set xs" by simp
  from intToString_tl_no_dash [of r'] r' have ys: "CHR ''-'' \<notin> set ys" by simp
  from eq r r' have "x = y" and "xs @ CHR ''-'' # intToString c = ys @ CHR ''-'' # intToString c'"
    by (simp_all add: getCellKey_def)
  with append_sep_eq [OF xs ys] r r' have "intToString r = intToString r'"
    and "intToString c = intToString c'" by simp_all
  then show "r = r' \<and> c = c'" by (auto dest: intToString_inj)
qed simp

section \<open>Properties of the store\<close>

lemma getProp_setProp:
  "getProp (setProp k v kvs) k' = (if k' = k then Some v else getProp kvs k')"
  by (induction kvs) (auto simp: getProp_def)

lemma getProp_deleteProp:
  "getProp (deleteProp k kvs) k' = (if k' = k then None else getProp kvs k')"
  by (induction kvs) (auto simp: getProp_def deleteProp_def)

lemma with_cells_sel [simp]:
  "data (with_cells c s) = data s" "cells (with_cells c s) = c"
  "selectedCell (with_cells c s) = selectedCell s" "selectedRange (with_cells c s) = selectedRange s"
  "editingCell (with_cells c s) = editingCell s"
  "history (with_cells c s) = history s" "historyIndex (with_cells c s) = historyIndex s"
  by (simp_all add: with_cells_def)

lemma with_data_sel [simp]:
  "data (with_data d s) = d" "cells (with_data d s) = cells s"
  "selectedCell (with_data d s) = selectedCell s" "selectedRange (with_data d s) = selectedRange s"
  "editingCell (with_data d s) = editingCell s"
  "history (with_data d s) = history s" "historyIndex (with_data d s) = historyIndex s"
  by (simp_all add: with_data_def)

lemma with_selection_sel [simp]:
  "data (with_selection a b s) = data s" "cells (with_selection a b s) = cells s"
  "selectedCell (with_selection a b s) = a" "selectedRange (with_selection a b s) = b"
  "editingCell (with_selection a b s) = editingCell s"
  "history (with_selection a b s) = history s" "historyIndex (with_selection a b s) = historyIndex s"
  by (simp_all add: with_selection_def)

lemma saveToHistory_sel [simp]:
  "data (saveToHistory s) = data s" "cells (saveToHistory s) = cells s"
  "selectedCell (saveToHistory s) = selectedCell s" "selectedRange (saveToHistory s) = selectedRange s"
  "editingCell (saveToHistory s) = editingCell s"
  by (simp_all add: saveToHistory_def Let_def)

lemma restore_sel [simp]:
  "data (restore t h i) = data t" "cells (restore t h i) = cells t"
  "selectedCell (restore t h i) = selectedCell t" "selectedRange (restore t h i) = selectedRange t"
  "editingCell (restore t h i) = editingCell t"
  "history (restore t h i) = h" "historyIndex (restore t h i) = i"
  by (simp_all add: restore_def)

lemma cell_value_withValue [simp]: "cell_value (withValue e v) = v"
  by (simp add: withValue_def split: option.splits)

lemma dispatchAll_append:
  "dispatchAll P now (xs @ ys) s =
     (case dispatchAll P now xs s of Inl e \<Rightarrow> Inl e | Inr s' \<Rightarrow> dispatchAll P now ys s')"
  by (induction xs arbitrary: s) (auto split: sum.splits)

subsection \<open>Clearing a cell\<close>

lemma dispatch_set_empty:
  "dispatch P now (SET_VALUE pos (Str [])) s =
     Inr (saveToHistory (with_cells
       (setProp (getCellKey (row pos) (col pos))
          (withValue (getProp (cells s) (getCellKey (row pos) (col pos))) (Str [])) (cells s)) s))"
  by (simp add: dispatch.simps Let_def split: option.splits)

text \<open>
  Claim C10. SET_VALUE with the empty string, at any position, returns a state whose
  override at that position exists and has the empty string as its value; the raw value and
  the display value read there are then the empty string, whatever the base dataset holds:
  the override shadows the base value, it is not removed.
\<close>

theorem set_empty_value_shadows:
  "\<exists>s'. dispatch P now (SET_VALUE \<lparr>row = r, col = c\<rparr> (Str [])) s = Inr s'
     \<and> (\<exists>cell. getProp (cells s') (getCellKey r c) = Some cell \<and> cell_value cell = Str [])
     \<and> getCellRawValue P s' r c = Inr (Str [])
     \<and> getCellDisplayValue P s' r c = Inr []"
proof -
  define key where "key = getCellKey r c"
  define cell where "cell = withValue (getProp (cells s) key) (Str [] :: 'a scalar)"
  define s' where "s' = saveToHistory (with_cells (setProp key cell (cells s)) s)"
  have step: "dispatch P now (SET_VALUE \<lparr>row = r, col = c\<rparr> (Str [])) s = Inr s'"
    by (simp add: dispatch_set_empty s'_def cell_def key_def)
  have override: "getProp (cells s') (getCellKey r c) = Some cell"
    by (simp add: s'_def key_def getProp_setProp)
  have empty: "cell_value cell = Str []"
    by (simp add: cell_def)
  have raw: "getCellRawValue P s' r c = Inr (Str [])"
    by (simp add: getCellRawValue_def override empty)
  have shown: "getCellDisplayValue P s' r c = Inr []"
    by (simp add: getCellDisplayValue_def raw toString_def split: option.splits)
  from step override empty raw shown show ?thesis by blast
qed

text \<open>On the test data: the first cell reads \<open>Widget A\<close> before and the empty string
  after, and the override is there.\<close>

lemma shadow_example:
  "getCellRawValue testHost (initialState mockData) 0 0 = Inr (Str ''Widget A'') \<and>
   (case dispatch testHost 0 (SET_VALUE \<lparr>row = 0, col = 0\<rparr> (Str [])) (initialState mockData) of
      Inl e \<Rightarrow> None
    | Inr s' \<Rightarrow> Some (getCellRawValue testHost s' 0 0, cells s')) =
     Some (Inr (Str []), [(''0-0'', \<lparr>cell_value = Str [], cell_style = None, cell_formula = None\<rparr>)])"
  by (simp add: eval_simps)

subsection \<open>Operations with an index out of range\<close>

lemma dispatch_set_value_outside:
  "col pos < 0 \<or> int (length (columns (data s))) \<le> col pos \<Longrightarrow>
   dispatch P now (SET_VALUE pos v) s =
     Inr (saveToHistory (with_cells
       (setProp (getCellKey (row pos) (col pos))
          (withValue (getProp (cells s) (getCellKey (row pos) (col pos))) v) (cells s)) s))"
  by (auto simp: dispatch.simps Let_def index_def)

lemma dispatch_set_style:
  "dispatch P now (SET_STYLE pos st) s =
     Inr (with_cells
       (setProp (getCellKey (row pos) (col pos))
          ((existingCell (getProp (cells s) (getCellKey (row pos) (col pos))))
             \<lparr>cell_style := Some (mergeStyle
                (cell_style (existingCell (getProp (cells s) (getCellKey (row pos) (col pos))))) st)\<rparr>)
          (cells s)) s)"
  by (simp add: dispatch.simps Let_def)

text \<open>
  Claim C1, as amended. The operations that check their index leave the state as it is when
  the index is out of range, and raise nothing: UPDATE_COLUMN_NAME and UPDATE_COLUMN_TYPE
  for an index below \<open>0\<close> or at or above the number of columns, DELETE_COLUMN for an index
  at or above the number of columns, DELETE_ROW for an index at or above the number of rows;
  SORT_COLUMN always does. SET_VALUE and SET_STYLE check no bounds: SET_VALUE at a position
  whose column is out of range raises nothing, writes the value as given under that
  position's key and commits to the history; SET_STYLE at any position raises nothing and
  leaves an override with a style under that position's key, the history untouched.
\<close>

theorem dispatch_out_of_range:
  "(idx < 0 \<or> int (length (columns (data s))) \<le> idx \<longrightarrow>
      dispatch P now (UPDATE_COLUMN_NAME idx nm) s = Inr s \<and>
      dispatch P now (UPDATE_COLUMN_TYPE idx ty fmt) s = Inr s) \<and>
   (int (length (columns (data s))) \<le> idx \<longrightarrow> dispatch P now (DELETE_COLUMN idx) s = Inr s) \<and>
   (int (length (items (data s))) \<le> idx \<longrightarrow> dispatch P now (DELETE_ROW idx) s = Inr s) \<and>
   dispatch P now (SORT_COLUMN idx dir) s = Inr s \<and>
   (col pos < 0 \<or> int (length (columns (data s))) \<le> col pos \<longrightarrow>
      dispatch P now (SET_VALUE pos v) s =
        Inr (saveToHistory (with_cells
          (setProp (getCellKey (row pos) (col pos))
             (withValue (getProp (cells s) (getCellKey (row pos) (col pos))) v) (cells s)) s))) \<and>
   (\<exists>s'. dispatch P now (SET_STYLE pos st) s = Inr s' \<and>
         (\<exists>cell. getProp (cells s') (getCellKey (row pos) (col pos)) = Some cell \<and>
                 cell_style cell \<noteq> None) \<and>
         history s' = history s \<and> historyIndex s' = historyIndex s)"
proof -
  have upd: "idx < 0 \<or> int (length (columns (data s))) \<le> idx \<Longrightarrow>
      dispatch P now (UPDATE_COLUMN_NAME idx nm) s = Inr s \<and>
      dispatch P now (UPDATE_COLUMN_TYPE idx ty fmt) s = Inr s"
    by (auto simp: dispatch.simps Let_def)
  have delc: "int (length (columns (data s))) \<le> idx \<Longrightarrow> dispatch P now (DELETE_COLUMN idx) s = Inr s"
    by (simp add: dispatch.simps Let_def)
  have delr: "int (length (items (data s))) \<le> idx \<Longrightarrow> dispatch P now (DELETE_ROW idx) s = Inr s"
    by (simp add: dispatch.simps Let_def)
  have sort: "dispatch P now (SORT_COLUMN idx dir) s = Inr s"
    by (simp add: dispatch.simps)
  have style: "\<exists>s'. dispatch P now (SET_STYLE pos st) s = Inr s' \<and>
         (\<exists>cell. getProp (cells s') (getCellKey (row pos) (col pos)) = Some cell \<and>
                 cell_style cell \<noteq> None) \<and>
         history s' = history s \<and> historyIndex s' = historyIndex s"
    by (simp add: dispatch_set_style getProp_setProp)
  from upd delc delr sort style dispatch_set_value_outside [of pos s P now v]
  show ?thesis by blast
qed

theorem dispatch_out_of_range_witness:
  "((- 1 :: int) < 0 \<or> int (length (columns (data (initialState mockData)))) \<le> - 1) \<and>
   dispatch testHost 0 (UPDATE_COLUMN_NAME (- 1) ''x'') (initialState mockData)
     = Inr (initialState mockData) \<and>
   int (length (columns (data (initialState mockData)))) \<le> 3 \<and>
   dispatch testHost 0 (DELETE_COLUMN 3) (initialState mockData) = Inr (initialState mockData) \<and>
   int (length (items (data (initialState mockData)))) \<le> 2 \<and>
   dispatch testHost 0 (DELETE_ROW 2) (initialState mockData) = Inr (initialState mockData) \<and>
   (col \<lparr>row = 0, col = 3\<rparr> < 0 \<or>
    int (length (columns (data (initialState mockData)))) \<le> col \<lparr>row = 0, col = 3\<rparr>) \<and>
   dispatch testHost 0 (SET_VALUE \<lparr>row = 0, col = 3\<rparr> (Str ''x'')) (initialState mockData) =
     Inr (saveToHistory (with_cells
        [(''0-3'', \<lparr>cell_value = Str ''x'', cell_style = None, cell_formula = None\<rparr>)]
        (initialState mockData)))"
  using dispatch_out_of_range [of "- 1" "initialState mockData" testHost 0 "''x''" Text None,
      where pos = "\<lparr>row = 0, col = 3\<rparr>" and v = "Str ''x''"]
    dispatch_out_of_range [of 3 "initialState mockData" testHost 0 "''x''" Text None,
      where pos = "\<lparr>row = 0, col = 3\<rparr>" and v = "Str ''x''"]
    dispatch_out_of_range [of 2 "initialState mockData" testHost 0 "''x''" Text None,
      where pos = "\<lparr>row = 0, col = 3\<rparr>" and v = "Str ''x''"]
  by (simp add: initialState_def mockData_def getCellKey_def intToString_def digitsOf.simps
      getProp_def withValue_def)

text \<open>
  Claim C1 as stated fails: on the test data, SET_VALUE and SET_STYLE at the position
  \<open>(10, 10)\<close>, outside the two rows and three columns, each create an override under the
  key \<open>10-10\<close>, and SET_VALUE moves the history index from \<open>-1\<close> to \<open>0\<close>.
\<close>

theorem out_of_bounds_write_counterexample:
  "cells (initialState mockData) = [] \<and> historyIndex (initialState mockData) = - 1 \<and>
   (case dispatch testHost 0 (SET_VALUE \<lparr>row = 10, col = 10\<rparr> (Str ''x'')) (initialState mockData) of
      Inl e \<Rightarrow> None
    | Inr s \<Rightarrow> Some (cells s, historyIndex s)) =
     Some ([(''10-10'', \<lparr>cell_value = Str ''x'', cell_style = None, cell_formula = None\<rparr>)], 0) \<and>
   (case dispatch testHost 0
           (SET_STYLE \<lparr>row = 10, col = 10\<rparr>
              \<lparr>bold = Some True, italic = None, textAlign = None, backgroundColor = None\<rparr>)
           (initialState mockData) of
      Inl e \<Rightarrow> None
    | Inr s \<Rightarrow> Some (cells s)) =
     Some [(''10-10'', \<lparr>cell_value = Str [],
              cell_style = Some \<lparr>bold = Some True, italic = None, textAlign = None,
                                 backgroundColor = None\<rparr>,
              cell_formula = None\<rparr>)]"
  by (simp add: eval_simps)

text \<open>
  DELETE_COLUMN and DELETE_ROW compare their index with the length only, where
  UPDATE_COLUMN_NAME and UPDATE_COLUMN_TYPE also ask for \<open>columnIndex >= 0\<close>. On the test
  data DELETE_COLUMN with index \<open>-1\<close> throws a TypeError (\<open>columnToDelete\<close> is
  \<open>undefined\<close>), and DELETE_ROW with index \<open>-1\<close> removes no row but moves the override
  of row \<open>0\<close> to the key \<open>-1-0\<close>.
\<close>

lemma negative_delete_examples:
  "dispatch testHost 0 (DELETE_COLUMN (- 1)) (initialState mockData) = Inl TypeError \<and>
   (case dispatchAll testHost 0 [SET_VALUE \<lparr>row = 0, col = 0\<rparr> (Str ''a''), DELETE_ROW (- 1)]
           (initialState mockData) of
      Inl e \<Rightarrow> None
    | Inr s \<Rightarrow> Some (map fst (cells s), length (items (data s)))) = Some ([''-1-0''], 2)"
  by (simp add: eval_simps shift_simps)

section \<open>History\<close>

text \<open>
  Claim C2 (a defect of the code). The hook's own test expects that UNDO after one SET_VALUE
  on the freshly loaded data shows the original value again. The first commit becomes
  history entry \<open>0\<close> and UNDO needs an index above \<open>0\<close>, so UNDO changes nothing: the
  cell still shows \<open>Changed Value\<close>, and the history index after the commit is \<open>0\<close>
  where the test expects it above \<open>0\<close>.
\<close>

theorem undo_after_first_commit:
  "getCellDisplayValue testHost (initialState mockData) 0 0 = Inr ''Widget A'' \<and>
   (case dispatchAll testHost 0
           [SET_VALUE \<lparr>row = 0, col = 0\<rparr> (Str ''Changed Value''), UNDO]
           (initialState mockData) of
      Inl e \<Rightarrow> None
    | Inr s \<Rightarrow> Some (getCellDisplayValue testHost s 0 0, historyIndex s)) =
     Some (Inr ''Changed Value'', 0)"
  by (simp add: eval_simps)

text \<open>
  Where undo and redo do work: from a state whose last history entry is the live state (the
  state right after a commit), with room under the cap of 50 for \<open>n\<close> further
  SET_VALUE commits, \<open>n\<close> UNDOs bring back the display value of every cell as it was
  before those commits, and \<open>n\<close> REDOs the values after them.
\<close>

lemma saveToHistory_at_end:
  assumes "historyIndex s = int (length (history s)) - 1"
  shows "history (saveToHistory s) = slice_last 50 (history s @ [s])"
    and "historyIndex (saveToHistory s) = int (length (history s))"
  using assms by (simp_all add: saveToHistory_def slice_to_def Let_def)

lemma length_slice_last: "length (slice_last k xs) = min k (length xs)"
  by (simp add: slice_last_def)

lemma commit_appends:
  assumes step: "dispatch P now (SET_VALUE pos v) s = Inr s1"
    and idx: "historyIndex s = int (length (history s)) - 1"
    and room: "length (history s) < 50"
  shows "\<exists>snap. history s1 = history s @ [snap] \<and> data snap = data s1 \<and> cells snap = cells s1 \<and>
           historyIndex s1 = int (length (history s1)) - 1"
proof -
  from step obtain t where s1: "s1 = saveToHistory t"
    and t: "history t = history s" "historyIndex t = historyIndex s"
    by (auto simp: dispatch.simps Let_def split: option.splits if_splits sum.splits)
  from t idx have "historyIndex t = int (length (history t)) - 1" by simp
  from saveToHistory_at_end [OF this] t room
  have "history s1 = history s @ [t]" "historyIndex s1 = int (length (history s))"
    by (simp_all add: s1 slice_last_def)
  then show ?thesis by (auto simp: s1)
qed

lemma commits_append:
  "dispatchAll P now (map (\<lambda>pv. SET_VALUE (fst pv) (snd pv)) pvs) s = Inr t \<Longrightarrow>
   historyIndex s = int (length (history s)) - 1 \<Longrightarrow>
   length (history s) + length pvs \<le> 50 \<Longrightarrow>
   \<exists>snaps. history t = history s @ snaps \<and> length snaps = length pvs \<and>
           historyIndex t = int (length (history t)) - 1 \<and>
           (pvs \<noteq> [] \<longrightarrow> data (last snaps) = data t \<and> cells (last snaps) = cells t)"
proof (induction pvs arbitrary: s)
  case Nil
  then show ?case by simp
next
  case (Cons pv pvs)
  from Cons.prems(1) obtain s1 where
    s1: "dispatch P now (SET_VALUE (fst pv) (snd pv)) s = Inr s1"
    and rest: "dispatchAll P now (map (\<lambda>pv. SET_VALUE (fst pv) (snd pv)) pvs) s1 = Inr t"
    by (auto split: sum.splits)
  from Cons.prems(3) have "length (history s) < 50" by simp
  from commit_appends [OF s1 Cons.prems(2) this] obtain snap where
    snap: "history s1 = history s @ [snap]" "data snap = data s1" "cells snap = cells s1"
      "historyIndex s1 = int (length (history s1)) - 1"
    by blast
  from snap Cons.prems(3) have "length (history s1) + length pvs \<le> 50" by simp
  from Cons.IH [OF rest snap(4) this] obtain snaps where
    snaps: "history t = history s1 @ snaps" "length snaps = length pvs"
      "historyIndex t = int (length (history t)) - 1"
      "pvs \<noteq> [] \<longrightarrow> data (last snaps) = data t \<and> cells (last snaps) = cells t"
    by blast
  show ?case
  proof (cases "pvs = []")
    case True
    with rest have "t = s1" by simp
    with snap show ?thesis
      by (intro exI [of _ "[snap]"]) (simp add: True)
  next
    case False
    with snaps have "snaps \<noteq> []" by auto
    with snaps snap False show ?thesis
      by (intro exI [of _ "snap # snaps"]) simp
  qed
qed

lemma undos:
  "k \<le> nat (historyIndex t) \<Longrightarrow> historyIndex t < int (length (history t)) \<Longrightarrow> 0 < k \<Longrightarrow>
   dispatchAll P now (replicate k UNDO) t =
     Inr (restore (history t ! nat (historyIndex t - int k)) (history t) (historyIndex t - int k))"
proof (induction k arbitrary: t)
  case 0
  then show ?case by simp
next
  case (Suc k)
  let ?u = "restore (history t ! nat (historyIndex t - 1)) (history t) (historyIndex t - 1)"
  from Suc.prems have "0 < historyIndex t" by linarith
  with Suc.prems have first: "dispatch P now UNDO t = Inr ?u"
    by (simp add: dispatch.simps index_def)
  show ?case
  proof (cases "k = 0")
    case True
    with first show ?thesis by simp
  next
    case False
    with Suc.prems have "k \<le> nat (historyIndex ?u)" "historyIndex ?u < int (length (history ?u))" "0 < k"
      by simp_all
    from Suc.IH [OF this] first show ?thesis
      by (simp add: algebra_simps)
  qed
qed

lemma redos:
  "0 \<le> historyIndex u + 1 \<Longrightarrow> historyIndex u + int k < int (length (history u)) \<Longrightarrow> 0 < k \<Longrightarrow>
   dispatchAll P now (replicate k REDO) u =
     Inr (restore (history u ! nat (historyIndex u + int k)) (history u) (historyIndex u + int k))"
proof (induction k arbitrary: u)
  case 0
  then show ?case by simp
next
  case (Suc k)
  let ?w = "restore (history u ! nat (historyIndex u + 1)) (history u) (historyIndex u + 1)"
  from Suc.prems have first: "dispatch P now REDO u = Inr ?w"
    by (simp add: dispatch.simps index_def)
  show ?case
  proof (cases "k = 0")
    case True
    with first show ?thesis by simp
  next
    case False
    with Suc.prems have "0 \<le> historyIndex ?w + 1" "historyIndex ?w + int k < int (length (history ?w))" "0 < k"
      by simp_all
    from Suc.IH [OF this] first show ?thesis
      by (simp add: algebra_simps)
  qed
qed

lemma display_depends:
  "data s' = data s \<Longrightarrow> cells s' = cells s \<Longrightarrow>
   getCellDisplayValue P s' r c = getCellDisplayValue P s r c"
  unfolding getCellDisplayValue_def getCellRawValue_def by presburger

lemma undo_redo_roundtrip:
  assumes commits: "dispatchAll P now (map (\<lambda>pv. SET_VALUE (fst pv) (snd pv)) pvs) s = Inr t"
    and entry: "history s \<noteq> []" "historyIndex s = int (length (history s)) - 1"
    and clean: "data (last (history s)) = data s" "cells (last (history s)) = cells s"
    and room: "length (history s) + length pvs \<le> 50"
  shows "\<exists>u w. dispatchAll P now (replicate (length pvs) UNDO) t = Inr u \<and>
           dispatchAll P now (replicate (length pvs) REDO) u = Inr w \<and>
           getCellDisplayValue P u r c = getCellDisplayValue P s r c \<and>
           getCellDisplayValue P w r c = getCellDisplayValue P t r c"
proof (cases "pvs = []")
  case True
  with commits show ?thesis by simp
next
  case False
  let ?h = "history s" and ?n = "length pvs"
  from commits_append [OF commits entry(2) room] False obtain snaps where
    snaps: "history t = ?h @ snaps" "length snaps = ?n"
      "historyIndex t = int (length (history t)) - 1"
      "data (last snaps) = data t" "cells (last snaps) = cells t"
    by blast
  from snaps False have nonempty: "snaps \<noteq> []" by auto
  let ?u = "restore (history t ! nat (historyIndex t - int ?n)) (history t) (historyIndex t - int ?n)"
  from entry obtain x xs where h: "?h = x # xs" by (cases ?h) auto
  with snaps have pos: "?n \<le> nat (historyIndex t)" "historyIndex t < int (length (history t))" "0 < ?n"
    using False by auto
  from undos [OF pos] have u: "dispatchAll P now (replicate ?n UNDO) t = Inr ?u" .
  from h snaps have at: "nat (historyIndex t - int ?n) = length ?h - 1" by auto
  with entry snaps have "history t ! nat (historyIndex t - int ?n) = last ?h"
    by (simp add: nth_append last_conv_nth)
  with clean have same: "data ?u = data s" "cells ?u = cells s" by simp_all
  let ?w = "restore (history ?u ! nat (historyIndex ?u + int ?n)) (history ?u) (historyIndex ?u + int ?n)"
  from h snaps pos have "0 \<le> historyIndex ?u + 1" "historyIndex ?u + int ?n < int (length (history ?u))"
    by simp_all
  from redos [OF this pos(3)] have w: "dispatchAll P now (replicate ?n REDO) ?u = Inr ?w" .
  from h snaps have top: "nat (historyIndex ?u + int ?n) = length (history t) - 1" by simp
  from snaps nonempty have "history t \<noteq> []" "last (history t) = last snaps" by simp_all
  then have "history t ! (length (history t) - 1) = last snaps"
    by (simp add: last_conv_nth)
  with top have "history ?u ! nat (historyIndex ?u + int ?n) = last snaps"
    by simp
  with snaps have again: "data ?w = data t" "cells ?w = cells t" by simp_all
  from u w display_depends [OF same] display_depends [OF again] show ?thesis by blast
qed

lemma commit_step:
  assumes "historyIndex s = int (length (history s)) - 1"
  shows "\<exists>s'. dispatch P now (SET_VALUE pos (Str [])) s = Inr s' \<and>
           length (history s') = min 50 (length (history s) + 1) \<and>
           historyIndex s' = int (length (history s))"
proof -
  let ?t = "with_cells (setProp (getCellKey (row pos) (col pos))
          (withValue (getProp (cells s) (getCellKey (row pos) (col pos))) (Str [])) (cells s)) s"
  have idx: "historyIndex ?t = int (length (history ?t)) - 1"
    using assms by simp
  have "dispatch P now (SET_VALUE pos (Str [])) s = Inr (saveToHistory ?t)"
    by (rule dispatch_set_empty)
  moreover have "length (history (saveToHistory ?t)) = min 50 (length (history s) + 1)"
    by (simp add: saveToHistory_at_end(1) [OF idx] length_slice_last)
  moreover have "historyIndex (saveToHistory ?t) = int (length (history s))"
    by (simp add: saveToHistory_at_end(2) [OF idx])
  ultimately show ?thesis by blast
qed

lemma commits_below_cap:
  "historyIndex s = int (length (history s)) - 1 \<Longrightarrow> length (history s) + n \<le> 50 \<Longrightarrow>
   \<exists>s'. dispatchAll P now (replicate n (SET_VALUE pos (Str []))) s = Inr s' \<and>
        length (history s') = length (history s) + n \<and>
        historyIndex s' = int (length (history s')) - 1"
proof (induction n arbitrary: s)
  case 0
  then show ?case by simp
next
  case (Suc n)
  from commit_step [OF Suc.prems(1), of P now pos] obtain s1 where
    s1: "dispatch P now (SET_VALUE pos (Str [])) s = Inr s1"
        "length (history s1) = min 50 (length (history s) + 1)"
        "historyIndex s1 = int (length (history s))"
    by blast
  from s1 Suc.prems have len: "length (history s1) = length (history s) + 1" by simp
  with s1 have idx: "historyIndex s1 = int (length (history s1)) - 1" by simp
  from len Suc.prems have "length (history s1) + n \<le> 50" by simp
  from Suc.IH [OF idx this] obtain s' where
    "dispatchAll P now (replicate n (SET_VALUE pos (Str []))) s1 = Inr s'"
    "length (history s') = length (history s1) + n"
    "historyIndex s' = int (length (history s')) - 1"
    by blast
  with s1 len show ?case by simp
qed

text \<open>
  Claim C3 (a defect of the code). \<open>saveToHistory\<close> takes the history index from the
  length of the history before it keeps the last 50 entries. After 51 commits on the test
  data the history holds 50 entries and the index is 50: it is not below the length, and it
  is not the index of the last retained entry.
\<close>

theorem history_index_past_end:
  "(case dispatchAll testHost 0 (replicate 51 (SET_VALUE \<lparr>row = 0, col = 0\<rparr> (Str [])))
           (initialState mockData) of
      Inl e \<Rightarrow> None
    | Inr s \<Rightarrow> Some (length (history s), historyIndex s)) = Some (50, 50)"
proof -
  let ?op = "SET_VALUE \<lparr>row = 0, col = 0\<rparr> (Str []) :: wholeNumber cellOperation"
  let ?s0 = "initialState mockData"
  have start: "historyIndex ?s0 = int (length (history ?s0)) - 1" "length (history ?s0) + 50 \<le> 50"
    by (simp_all add: initialState_def)
  from commits_below_cap [OF start, of testHost 0 "\<lparr>row = 0, col = 0\<rparr>"] obtain s50 where
    s50: "dispatchAll testHost 0 (replicate 50 ?op) ?s0 = Inr s50"
         "length (history s50) = 50" "historyIndex s50 = 49"
    by (auto simp: initialState_def)
  from s50 have "historyIndex s50 = int (length (history s50)) - 1" by simp
  from commit_step [OF this, of testHost 0 "\<lparr>row = 0, col = 0\<rparr>"] s50 obtain s51 where
    s51: "dispatch testHost 0 ?op s50 = Inr s51" "length (history s51) = 50" "historyIndex s51 = 50"
    by auto
  have "(51::nat) = Suc 50" by simp
  then have "replicate 51 ?op = replicate 50 ?op @ [?op]"
    by (simp only: replicate_Suc replicate_append_same)
  then show ?thesis
    by (simp add: dispatchAll_append s50 s51)
qed

text \<open>
  What every dispatch does keep: the index stays between \<open>-1\<close> and the length of the
  history, the length included, and the history never holds more than 50 entries.
\<close>

lemma length_saveToHistory:
  "length (history (saveToHistory s)) \<le> 50"
  by (simp add: saveToHistory_def Let_def slice_last_def)

lemma saveToHistory_index:
  assumes "- 1 \<le> historyIndex s" "historyIndex s \<le> int (length (history s))"
    "length (history s) \<le> 50"
  shows "0 \<le> historyIndex (saveToHistory s) \<and>
         historyIndex (saveToHistory s) \<le> int (length (history (saveToHistory s)))"
  using assms by (auto simp: saveToHistory_def Let_def slice_last_def slice_to_def min_def)

lemma save_invariant:
  assumes "historyInvariant s" "history t = history s" "historyIndex t = historyIndex s"
  shows "historyInvariant (saveToHistory t)"
  using assms saveToHistory_index [of t] length_saveToHistory [of t]
  by (simp add: historyInvariant_def)

lemma with_editingCell_sel [simp]:
  "data (with_editingCell e s) = data s" "cells (with_editingCell e s) = cells s"
  "history (with_editingCell e s) = history s" "historyIndex (with_editingCell e s) = historyIndex s"
  by (simp_all add: with_editingCell_def)

lemma dispatch_invariant:
  assumes "dispatch P now operation s = Inr s'" and "historyInvariant s"
  shows "historyInvariant s'"
proof (cases operation)
  case (SET_VALUE pos v)
  with assms show ?thesis
    by (auto simp: dispatch.simps Let_def intro!: save_invariant split: option.splits if_splits sum.splits)
next
  case (SET_STYLE pos st)
  with assms show ?thesis by (auto simp: dispatch.simps Let_def historyInvariant_def)
next
  case (SET_FORMULA pos f)
  with assms show ?thesis by (auto simp: dispatch.simps Let_def intro!: save_invariant)
next
  case (SELECT_CELL pos)
  with assms show ?thesis by (auto simp: dispatch.simps historyInvariant_def)
next
  case (SELECT_RANGE rg)
  with assms show ?thesis by (auto simp: dispatch.simps historyInvariant_def)
next
  case (START_EDITING pos)
  with assms show ?thesis by (auto simp: dispatch.simps historyInvariant_def)
next
  case STOP_EDITING
  with assms show ?thesis by (auto simp: dispatch.simps historyInvariant_def)
next
  case (ADD_COLUMN idx nm)
  with assms show ?thesis by (auto simp: dispatch.simps Let_def intro!: save_invariant)
next
  case (ADD_ROW idx)
  with assms show ?thesis by (auto simp: dispatch.simps Let_def intro!: save_invariant)
next
  case (DELETE_COLUMN idx)
  with assms show ?thesis
    by (auto simp: dispatch.simps Let_def intro!: save_invariant split: if_splits sum.splits option.splits)
next
  case (DELETE_ROW idx)
  with assms show ?thesis
    by (auto simp: dispatch.simps Let_def intro!: save_invariant split: if_splits)
next
  case (UPDATE_COLUMN_NAME idx nm)
  with assms show ?thesis
    by (auto simp: dispatch.simps Let_def intro!: save_invariant split: if_splits)
next
  case (UPDATE_COLUMN_TYPE idx ty fmt)
  with assms show ?thesis
    by (auto simp: dispatch.simps Let_def intro!: save_invariant split: if_splits)
next
  case (SORT_COLUMN idx dir)
  with assms show ?thesis by (auto simp: dispatch.simps)
next
  case UNDO
  with assms show ?thesis
    by (auto simp: dispatch.simps historyInvariant_def split: if_splits option.splits)
next
  case REDO
  with assms show ?thesis
    by (auto simp: dispatch.simps historyInvariant_def split: if_splits option.splits)
qed









section \<open>Deleting a column\<close>

text \<open>
  Claim C5 (a defect of the code). The remap rewrites the object it is walking. With
  overrides entered first at column 2 and then at column 1 of row 0, DELETE_COLUMN 0 moves
  the first onto the key \<open>0-1\<close>, over the second, and then moves that same entry on to
  \<open>0-0\<close>: one override is left, the one from column 2 under the key of column 0, where
  the claim has the override of column 1 under \<open>0-0\<close> and that of column 2 under
  \<open>0-1\<close>.
\<close>

theorem delete_column_clobbers:
  "(case dispatchAll testHost 0
           [SET_VALUE \<lparr>row = 0, col = 2\<rparr> (Str ''x''),
            SET_VALUE \<lparr>row = 0, col = 1\<rparr> (Str ''y'')]
           (initialState mockData) of
      Inl e \<Rightarrow> None
    | Inr s \<Rightarrow> Some (map (\<lambda>kv. (fst kv, cell_value (snd kv))) (cells s))) =
     Some [(''0-2'', Str ''x''), (''0-1'', Str ''y'')] \<and>
   (case dispatchAll testHost 0
           [SET_VALUE \<lparr>row = 0, col = 2\<rparr> (Str ''x''),
            SET_VALUE \<lparr>row = 0, col = 1\<rparr> (Str ''y''),
            DELETE_COLUMN 0]
           (initialState mockData) of
      Inl e \<Rightarrow> None
    | Inr s \<Rightarrow> Some (map (\<lambda>kv. (fst kv, cell_value (snd kv))) (cells s))) =
     Some [(''0-0'', Str ''x'')]"
  by (simp add: eval_simps shift_simps)

section \<open>White space and letter case\<close>

text \<open>
  The no-break space U+00A0 is white space to \<open>trim\<close>, so a text value loses it at
  either side; \<open>toLowerCase\<close> maps the accented capitals of U+00C0 to U+00DE as well, and
  leaves the multiplication sign U+00D7 alone.
\<close>

lemma trim_no_break_space:
  "isSpace (CHR 0xA0) \<and> trim (CHR 0xA0 # ''a'' @ [CHR 0xA0]) = ''a''"
  by (simp add: trim_def isSpace_def)

lemma toLowerCase_latin1:
  "toLowerCase (''Yes'' @ [CHR 0xC9, CHR 0xD7]) = ''yes'' @ [CHR 0xE9, CHR 0xD7]"
  by (simp add: toLowerCase_def upperCaseLetters_def lowerCaseLetters_def)

lemma validate_text_no_break_space:
  "validateCellValue testHost (Str (''a'' @ [CHR 0xA0])) Text None = Inr (valid ''a'')"
  by (simp add: eval_simps)

section \<open>Validation of numbers\<close>

text \<open>
  The number case of \<open>validateCellValue\<close>, for an input that is not empty (the empty
  string and NaN are answered before the switch): the trimmed text of the input goes through
  \<open>parseFloat\<close>; NaN gives the error \<open>Must be a valid number\<close>; otherwise the
  formatted value is what the host's \<open>toLocaleString('en-US', ...)\<close> prints with
  minimum and maximum fraction digits both equal to \<open>format.decimals\<close> when that field is
  given and not \<open>0\<close>, and both equal to \<open>2\<close> when the field is absent or \<open>0\<close>.
\<close>

lemma validate_number:
  assumes "\<not> (falsy P v \<and> \<not> isNumberZero P v)"
    and "num = parseFloat P (trim (toString P v))"
  shows
    "(isNaN P num \<longrightarrow>
        validateCellValue P v Number fmt =
          Inr \<lparr>isValid = False, error = Some ''Must be a valid number'', formattedValue = None\<rparr>) \<and>
     (\<not> isNaN P num \<and> fmt = Some f \<and> decimals f = Some k \<and> k \<noteq> 0 \<longrightarrow>
        validateCellValue P v Number fmt =
          (case toLocaleString P (Some ''en-US'') num k k of
             Inl e \<Rightarrow> Inl e
           | Inr str \<Rightarrow> Inr \<lparr>isValid = True, error = None, formattedValue = Some str\<rparr>)) \<and>
     (\<not> isNaN P num \<and> (fmt = None \<or> fmt = Some f \<and> (decimals f = None \<or> decimals f = Some 0)) \<longrightarrow>
        validateCellValue P v Number fmt =
          (case toLocaleString P (Some ''en-US'') num 2 2 of
             Inl e \<Rightarrow> Inl e
           | Inr str \<Rightarrow> Inr \<lparr>isValid = True, error = None, formattedValue = Some str\<rparr>))"
proof -
  have nan: "isNaN P num \<Longrightarrow> validateCellValue P v Number fmt =
      Inr \<lparr>isValid = False, error = Some ''Must be a valid number'', formattedValue = None\<rparr>"
    using assms by (auto simp: validateCellValue_def invalid_def Let_def)
  have given: "\<not> isNaN P num \<Longrightarrow> fmt = Some f \<Longrightarrow> decimals f = Some k \<Longrightarrow> k \<noteq> 0 \<Longrightarrow>
      validateCellValue P v Number fmt =
        (case toLocaleString P (Some ''en-US'') num k k of
           Inl e \<Rightarrow> Inl e
         | Inr str \<Rightarrow> Inr \<lparr>isValid = True, error = None, formattedValue = Some str\<rparr>)"
    using assms by (auto simp: validateCellValue_def valid_def Let_def split: sum.splits)
  have dflt: "\<not> isNaN P num \<Longrightarrow> fmt = None \<or> fmt = Some f \<and> (decimals f = None \<or> decimals f = Some 0) \<Longrightarrow>
      validateCellValue P v Number fmt =
        (case toLocaleString P (Some ''en-US'') num 2 2 of
           Inl e \<Rightarrow> Inl e
         | Inr str \<Rightarrow> Inr \<lparr>isValid = True, error = None, formattedValue = Some str\<rparr>)"
    using assms by (auto simp: validateCellValue_def valid_def Let_def split: sum.splits)
  from nan given dflt show ?thesis by blast
qed

lemma validate_number_example:
  "\<not> (falsy testHost (Str ''1234'') \<and> \<not> isNumberZero testHost (Str ''1234'')) \<and>
   \<not> isNaN testHost (parseFloat testHost (trim (toString testHost (Str ''1234'')))) \<and>
   decimals \<lparr>decimals = Some 3, currency = None, dateFormat = None\<rparr> = Some 3 \<and>
   validateCellValue testHost (Str ''1234'') Number
      (Some \<lparr>decimals = Some 3, currency = None, dateFormat = None\<rparr>) =
     Inr \<lparr>isValid = True, error = None, formattedValue = Some ''1,234.000''\<rparr> \<and>
   isNaN testHost (parseFloat testHost (trim (toString testHost (Str ''not a number'')))) \<and>
   validateCellValue testHost (Str ''not a number'') Number None =
     Inr \<lparr>isValid = False, error = Some ''Must be a valid number'', formattedValue = None\<rparr>"
proof -
  have a: "\<not> (falsy testHost (Str ''1234'') \<and> \<not> isNumberZero testHost (Str ''1234''))"
    and b: "\<not> (falsy testHost (Str ''not a number'') \<and> \<not> isNumberZero testHost (Str ''not a number''))"
    by (simp_all add: falsy_def)
  have c: "parseFloat testHost (trim (toString testHost (Str ''1234''))) = Whole 1234"
    and d: "parseFloat testHost (trim (toString testHost (Str ''not a number''))) = NaN"
    by (simp_all add: eval_simps)
  have e: "toLocaleString testHost (Some ''en-US'') (Whole 1234) 3 3 = Inr ''1,234.000''"
    by (simp add: eval_simps)
  have f: "isNaN testHost NaN" "\<not> isNaN testHost (Whole 1234)"
    by (simp_all add: testHost_def)
  from validate_number [OF a c [symmetric], of "Some \<lparr>decimals = Some 3, currency = None, dateFormat = None\<rparr>"
      "\<lparr>decimals = Some 3, currency = None, dateFormat = None\<rparr>" 3]
    validate_number [OF b d [symmetric], of None]
  show ?thesis
    by (simp add: a c d e f)
qed

lemma empty_input_valid:
  "isNaN testHost (parseFloat testHost (trim (toString testHost (Str [])))) \<and>
   validateCellValue testHost (Str []) Number None =
     Inr \<lparr>isValid = True, error = None, formattedValue = Some []\<rparr>"
  by (simp add: eval_simps)

text \<open>
  Claim C9 (a defect of the code). \<open>format?.decimals || 2\<close> takes \<open>2\<close> for a
  \<open>decimals\<close> of \<open>0\<close> as it does for an absent field: with \<open>format.decimals = 0\<close> the
  input \<open>5\<close> is formatted as \<open>5.00\<close>, two decimal places where the claim has none;
  with \<open>format.decimals = 1\<close> it is \<open>5.0\<close>, and without a format \<open>5.00\<close>.
\<close>

theorem zero_decimals_ignored:
  "validateCellValue testHost (Str ''5'') Number
     (Some \<lparr>decimals = Some 0, currency = None, dateFormat = None\<rparr>) =
   Inr \<lparr>isValid = True, error = None, formattedValue = Some ''5.00''\<rparr> \<and>
   validateCellValue testHost (Str ''5'') Number
     (Some \<lparr>decimals = Some 1, currency = None, dateFormat = None\<rparr>) =
   Inr \<lparr>isValid = True, error = None, formattedValue = Some ''5.0''\<rparr> \<and>
   validateCellValue testHost (Str ''5'') Number None =
   Inr \<lparr>isValid = True, error = None, formattedValue = Some ''5.00''\<rparr>"
  by (simp add: eval_simps)

section \<open>Range move\<close>

lemma mem_rangePositions:
  "(r, c) \<in> set (rangePositions minRow maxRow minCol maxCol) \<longleftrightarrow>
     minRow \<le> r \<and> r \<le> maxRow \<and> minCol \<le> c \<and> c \<le> maxCol"
  by (force simp: rangePositions_def)

lemma collect_entries:
  "collectCellData P s dr dc ps = Inr cd \<Longrightarrow> e \<in> set cd \<Longrightarrow>
   (row (sourcePos e), col (sourcePos e)) \<in> set ps \<and>
   targetPos e = \<lparr>row = row (sourcePos e) + dr, col = col (sourcePos e) + dc\<rparr> \<and>
   0 \<le> row (sourcePos e) + dr \<and> row (sourcePos e) + dr < int (length (items (data s))) \<and>
   0 \<le> col (sourcePos e) + dc \<and> col (sourcePos e) + dc < int (length (columns (data s)))"
proof (induction ps arbitrary: cd)
  case Nil
  then show ?case by simp
next
  case (Cons rc ps)
  show ?case
  proof (cases "0 \<le> fst rc + dr \<and> fst rc + dr < int (length (items (data s))) \<and>
                0 \<le> snd rc + dc \<and> snd rc + dc < int (length (columns (data s)))")
    case False
    with Cons.prems have "collectCellData P s dr dc ps = Inr cd"
      by (auto simp: Let_def)
    from Cons.IH [OF this Cons.prems(2)] show ?thesis by simp
  next
    case True
    with Cons.prems(1) obtain v rest where
      v: "getCellDisplayValue P s (fst rc) (snd rc) = Inr v"
      and rest: "collectCellData P s dr dc ps = Inr rest"
      and cd: "cd = (if v \<noteq> [] then
                 \<lparr>sourcePos = \<lparr>row = fst rc, col = snd rc\<rparr>,
                  targetPos = \<lparr>row = fst rc + dr, col = snd rc + dc\<rparr>,
                  moved_value = v,
                  moved_style = getCellStyle s (fst rc) (snd rc)\<rparr> # rest
               else rest)"
      by (auto simp: Let_def split: sum.splits if_splits)
    show ?thesis
    proof (cases "e \<in> set rest")
      case inrest: True
      from Cons.IH [OF rest inrest] show ?thesis by simp
    next
      case notinrest: False
      with cd Cons.prems(2) have "e = \<lparr>sourcePos = \<lparr>row = fst rc, col = snd rc\<rparr>,
                  targetPos = \<lparr>row = fst rc + dr, col = snd rc + dc\<rparr>,
                  moved_value = v,
                  moved_style = getCellStyle s (fst rc) (snd rc)\<rparr>"
        by (auto split: if_splits)
      with True show ?thesis by simp
    qed
  qed
qed

lemma set_value_frame:
  assumes "dispatch P now (SET_VALUE pos v) s = Inr s'"
  shows "data s' = data s"
    and "k \<noteq> getCellKey (row pos) (col pos) \<Longrightarrow> getProp (cells s') k = getProp (cells s) k"
  using assms
  by (auto simp: dispatch.simps Let_def getProp_setProp split: option.splits if_splits sum.splits)

lemma set_style_frame:
  assumes "dispatch P now (SET_STYLE pos st) s = Inr s'"
  shows "data s' = data s"
    and "k \<noteq> getCellKey (row pos) (col pos) \<Longrightarrow> getProp (cells s') k = getProp (cells s) k"
  using assms
  by (auto simp: dispatch.simps Let_def getProp_setProp)

lemma select_range_frame:
  assumes "dispatch P now (SELECT_RANGE rg) s = Inr s'"
  shows "data s' = data s" and "cells s' = cells s"
  using assms by (auto simp: dispatch.simps)

lemma clears_data:
  "dispatchAll P now (map (\<lambda>cell. SET_VALUE (sourcePos cell) (Str [])) cd) s = Inr s' \<Longrightarrow>
   data s' = data s"
proof (induction cd arbitrary: s)
  case Nil
  then show ?case by simp
next
  case (Cons e cd)
  then obtain s1 where s1: "dispatch P now (SET_VALUE (sourcePos e) (Str [])) s = Inr s1"
    and rest: "dispatchAll P now (map (\<lambda>cell. SET_VALUE (sourcePos cell) (Str [])) cd) s1 = Inr s'"
    by (auto split: sum.splits)
  from Cons.IH [OF rest] set_value_frame(1) [OF s1] show ?case by simp
qed

lemma clears_frame:
  "list_all (\<lambda>e. getCellKey (row (sourcePos e)) (col (sourcePos e)) \<noteq> k) cd \<Longrightarrow>
   dispatchAll P now (map (\<lambda>cell. SET_VALUE (sourcePos cell) (Str [])) cd) s = Inr s' \<Longrightarrow>
   getProp (cells s') k = getProp (cells s) k"
proof (induction cd arbitrary: s)
  case Nil
  then show ?case by simp
next
  case (Cons e cd)
  then obtain s1 where s1: "dispatch P now (SET_VALUE (sourcePos e) (Str [])) s = Inr s1"
    and rest: "dispatchAll P now (map (\<lambda>cell. SET_VALUE (sourcePos cell) (Str [])) cd) s1 = Inr s'"
    by (auto split: sum.splits)
  from Cons.prems(1) have here: "k \<noteq> getCellKey (row (sourcePos e)) (col (sourcePos e))"
    and there: "list_all (\<lambda>e. getCellKey (row (sourcePos e)) (col (sourcePos e)) \<noteq> k) cd"
    by auto
  from Cons.IH [OF there rest] set_value_frame(2) [OF s1 here] show ?case by simp
qed

lemma writes_frame:
  "list_all (\<lambda>e. getCellKey (row (targetPos e)) (col (targetPos e)) \<noteq> k) cd \<Longrightarrow>
   dispatchAll P now
     (concat (map (\<lambda>cell. [SET_VALUE (targetPos cell) (Str (moved_value cell)),
                             SET_STYLE (targetPos cell) (moved_style cell)]) cd)) s = Inr s' \<Longrightarrow>
   data s' = data s \<and> getProp (cells s') k = getProp (cells s) k"
proof (induction cd arbitrary: s)
  case Nil
  then show ?case by simp
next
  case (Cons e cd)
  then obtain s1 s2 where
    s1: "dispatch P now (SET_VALUE (targetPos e) (Str (moved_value e))) s = Inr s1"
    and s2: "dispatch P now (SET_STYLE (targetPos e) (moved_style e)) s1 = Inr s2"
    and rest: "dispatchAll P now
       (concat (map (\<lambda>cell. [SET_VALUE (targetPos cell) (Str (moved_value cell)),
                               SET_STYLE (targetPos cell) (moved_style cell)]) cd)) s2 = Inr s'"
    by (auto split: sum.splits)
  from Cons.prems(1) have here: "k \<noteq> getCellKey (row (targetPos e)) (col (targetPos e))"
    and there: "list_all (\<lambda>e. getCellKey (row (targetPos e)) (col (targetPos e)) \<noteq> k) cd"
    by auto
  from Cons.IH [OF there rest] set_value_frame [OF s1] set_style_frame [OF s2] here
  show ?case by simp
qed

text \<open>The three phases of a move, one after the other.\<close>

lemma moveRange_phases:
  assumes "moveRange P now s rng srcRow srcCol dropRow dropCol = Inr s'"
  obtains cd s1 s2 where
    "collectCellData P s (dropRow - srcRow) (dropCol - srcCol)
       (rangePositions (min (row (range_start rng)) (row (range_end rng)))
                       (max (row (range_start rng)) (row (range_end rng)))
                       (min (col (range_start rng)) (col (range_end rng)))
                       (max (col (range_start rng)) (col (range_end rng)))) = Inr cd"
    "dispatchAll P now (map (\<lambda>cell. SET_VALUE (sourcePos cell) (Str [])) cd) s = Inr s1"
    "dispatchAll P now
       (concat (map (\<lambda>cell. [SET_VALUE (targetPos cell) (Str (moved_value cell)),
                               SET_STYLE (targetPos cell) (moved_style cell)]) cd)) s1 = Inr s2"
    "data s' = data s2" "cells s' = cells s2"
proof -
  from assms obtain cd where
    cd: "collectCellData P s (dropRow - srcRow) (dropCol - srcCol)
       (rangePositions (min (row (range_start rng)) (row (range_end rng)))
                       (max (row (range_start rng)) (row (range_end rng)))
                       (min (col (range_start rng)) (col (range_end rng)))
                       (max (col (range_start rng)) (col (range_end rng)))) = Inr cd"
    and run: "dispatchAll P now
       (map (\<lambda>cell. SET_VALUE (sourcePos cell) (Str [])) cd
        @ concat (map (\<lambda>cell. [SET_VALUE (targetPos cell) (Str (moved_value cell)),
                                 SET_STYLE (targetPos cell) (moved_style cell)]) cd)
        @ [SELECT_RANGE
             \<lparr>range_start = \<lparr>row = min (row (range_start rng)) (row (range_end rng)) + (dropRow - srcRow),
                              col = min (col (range_start rng)) (col (range_end rng)) + (dropCol - srcCol)\<rparr>,
              range_end = \<lparr>row = max (row (range_start rng)) (row (range_end rng)) + (dropRow - srcRow),
                            col = max (col (range_start rng)) (col (range_end rng)) + (dropCol - srcCol)\<rparr>\<rparr>])
       s = Inr s'"
    by (auto simp: moveRange_def Let_def split: sum.splits)
  from run obtain s1 s2 where
    s1: "dispatchAll P now (map (\<lambda>cell. SET_VALUE (sourcePos cell) (Str [])) cd) s = Inr s1"
    and s2: "dispatchAll P now
       (concat (map (\<lambda>cell. [SET_VALUE (targetPos cell) (Str (moved_value cell)),
                               SET_STYLE (targetPos cell) (moved_style cell)]) cd)) s1 = Inr s2"
    and s3: "dispatch P now (SELECT_RANGE
             \<lparr>range_start = \<lparr>row = min (row (range_start rng)) (row (range_end rng)) + (dropRow - srcRow),
                              col = min (col (range_start rng)) (col (range_end rng)) + (dropCol - srcCol)\<rparr>,
              range_end = \<lparr>row = max (row (range_start rng)) (row (range_end rng)) + (dropRow - srcRow),
                            col = max (col (range_start rng)) (col (range_end rng)) + (dropCol - srcCol)\<rparr>\<rparr>)
           s2 = Inr s'"
    by (auto simp: dispatchAll_append split: sum.splits)
  from select_range_frame [OF s3] cd s1 s2 that show thesis by blast
qed

lemma raw_value_depends:
  "data s' = data s \<Longrightarrow> getProp (cells s') (getCellKey r c) = getProp (cells s) (getCellKey r c) \<Longrightarrow>
   getCellRawValue P s' r c = getCellRawValue P s r c"
  unfolding getCellRawValue_def by presburger

text \<open>
  Claim C7, as amended. A cell whose target (the cell plus the offset) falls outside the
  dataset is skipped by the move, and nothing is raised for it: the collection goes on with
  the next cell, so nothing is written for it and it is not cleared either. Unless it is
  itself the target of a cell of the dragged range, its override (or the absence of one), the
  dataset and hence the raw value read there are after the move what they were before.
\<close>

theorem skipped_cell_untouched:
  fixes rng :: cellRange and srcRow srcCol dropRow dropCol r c :: int
  defines "rowOffset \<equiv> dropRow - srcRow" and "colOffset \<equiv> dropCol - srcCol"
  assumes moved: "moveRange P now s rng srcRow srcCol dropRow dropCol = Inr s'"
    and outside: "\<not> (0 \<le> r + rowOffset \<and> r + rowOffset < int (length (items (data s))) \<and>
                     0 \<le> c + colOffset \<and> c + colOffset < int (length (columns (data s))))"
    and no_target: "\<not> (min (row (range_start rng)) (row (range_end rng)) \<le> r - rowOffset \<and>
                       r - rowOffset \<le> max (row (range_start rng)) (row (range_end rng)) \<and>
                       min (col (range_start rng)) (col (range_end rng)) \<le> c - colOffset \<and>
                       c - colOffset \<le> max (col (range_start rng)) (col (range_end rng)))"
  shows "collectCellData P s rowOffset colOffset ((r, c) # ps) =
           collectCellData P s rowOffset colOffset ps \<and>
         data s' = data s \<and>
         getProp (cells s') (getCellKey r c) = getProp (cells s) (getCellKey r c) \<and>
         getCellRawValue P s' r c = getCellRawValue P s r c"
proof -
  from outside have skip: "collectCellData P s rowOffset colOffset ((r, c) # ps) =
      collectCellData P s rowOffset colOffset ps"
    by (auto simp: Let_def)
  let ?ps = "rangePositions (min (row (range_start rng)) (row (range_end rng)))
                       (max (row (range_start rng)) (row (range_end rng)))
                       (min (col (range_start rng)) (col (range_end rng)))
                       (max (col (range_start rng)) (col (range_end rng)))"
  from moved obtain cd s1 s2 where
    cd: "collectCellData P s rowOffset colOffset ?ps = Inr cd"
    and s1: "dispatchAll P now (map (\<lambda>cell. SET_VALUE (sourcePos cell) (Str [])) cd) s = Inr s1"
    and s2: "dispatchAll P now
       (concat (map (\<lambda>cell. [SET_VALUE (targetPos cell) (Str (moved_value cell)),
                               SET_STYLE (targetPos cell) (moved_style cell)]) cd)) s1 = Inr s2"
    and s': "data s' = data s2" "cells s' = cells s2"
    unfolding rowOffset_def colOffset_def by (rule moveRange_phases)
  have sources: "list_all (\<lambda>e. getCellKey (row (sourcePos e)) (col (sourcePos e)) \<noteq> getCellKey r c) cd"
  proof -
    have "getCellKey (row (sourcePos e)) (col (sourcePos e)) \<noteq> getCellKey r c" if "e \<in> set cd" for e
      using collect_entries [OF cd that] outside by (auto simp: getCellKey_inj)
    then show ?thesis by (simp add: list_all_iff)
  qed
  have targets: "list_all (\<lambda>e. getCellKey (row (targetPos e)) (col (targetPos e)) \<noteq> getCellKey r c) cd"
  proof -
    have "getCellKey (row (targetPos e)) (col (targetPos e)) \<noteq> getCellKey r c" if "e \<in> set cd" for e
    proof
      assume eq: "getCellKey (row (targetPos e)) (col (targetPos e)) = getCellKey r c"
      from collect_entries [OF cd that] have
        src: "(row (sourcePos e), col (sourcePos e)) \<in> set ?ps"
        and tgt: "targetPos e = \<lparr>row = row (sourcePos e) + rowOffset, col = col (sourcePos e) + colOffset\<rparr>"
        by simp_all
      from eq tgt have "row (sourcePos e) = r - rowOffset" "col (sourcePos e) = c - colOffset"
        by (auto simp: getCellKey_inj)
      with src no_target show False by (simp add: mem_rangePositions)
    qed
    then show ?thesis by (simp add: list_all_iff)
  qed
  from clears_data [OF s1] writes_frame [OF targets s2] s' have d: "data s' = data s" by simp
  from clears_frame [OF sources s1] writes_frame [OF targets s2] s'
  have k: "getProp (cells s') (getCellKey r c) = getProp (cells s) (getCellKey r c)" by simp
  from skip d k raw_value_depends [OF d k] show ?thesis by simp
qed

lemma moveRange_mock:
  "moveRange testHost 0 (initialState mockData) dragged 0 0 1 1 = Inr movedMock"
  by (simp add: movedMock_def dragged_def moveRange_def rangePositions_def eval_simps upto.simps)

theorem skipped_cell_untouched_witness:
  "moveRange testHost 0 (initialState mockData) dragged 0 0 1 1 = Inr movedMock \<and>
   \<not> (0 \<le> (1::int) + (1 - 0) \<and> (1::int) + (1 - 0) < int (length (items (data (initialState mockData)))) \<and>
      0 \<le> (0::int) + (1 - 0) \<and> (0::int) + (1 - 0) < int (length (columns (data (initialState mockData))))) \<and>
   getCellRawValue testHost (initialState mockData) 1 0 = Inr (Str ''Widget B'') \<and>
   getProp (cells movedMock) (getCellKey 1 0) = None \<and>
   getCellRawValue testHost movedMock 1 0 = Inr (Str ''Widget B'')"
proof -
  have a: "\<not> (0 \<le> (1::int) + (1 - 0) \<and>
       (1::int) + (1 - 0) < int (length (items (data (initialState mockData)))) \<and>
       0 \<le> (0::int) + (1 - 0) \<and>
       (0::int) + (1 - 0) < int (length (columns (data (initialState mockData)))))"
    by (simp add: initialState_def mockData_def)
  have b: "\<not> (min (row (range_start dragged)) (row (range_end dragged)) \<le> (1::int) - (1 - 0) \<and>
       (1::int) - (1 - 0) \<le> max (row (range_start dragged)) (row (range_end dragged)) \<and>
       min (col (range_start dragged)) (col (range_end dragged)) \<le> (0::int) - (1 - 0) \<and>
       (0::int) - (1 - 0) \<le> max (col (range_start dragged)) (col (range_end dragged)))"
    by (simp add: dragged_def)
  have c: "getCellRawValue testHost (initialState mockData) 1 0 = Inr (Str ''Widget B'')"
    and d: "getProp (cells (initialState mockData)) (getCellKey 1 0) = None"
    by (simp_all add: eval_simps)
  from skipped_cell_untouched [OF moveRange_mock a b] moveRange_mock a c d
  show ?thesis by simp
qed

text \<open>
  Claim C7 as stated fails: on the test data (two rows), dragging \<open>[(0,0),(1,1)]\<close> down
  and right by one sends cell \<open>(1,0)\<close> to row 2, outside the dataset; after the move the
  cell still shows \<open>Widget B\<close>, and no override was written for it: the source is not
  cleared.
\<close>

theorem skipped_source_counterexample:
  "getCellDisplayValue testHost (initialState mockData) 1 0 = Inr ''Widget B'' \<and>
   (case moveRange testHost 0 (initialState mockData)
           \<lparr>range_start = \<lparr>row = 0, col = 0\<rparr>, range_end = \<lparr>row = 1, col = 1\<rparr>\<rparr> 0 0 1 1 of
      Inl e \<Rightarrow> None
    | Inr s \<Rightarrow> Some (getCellDisplayValue testHost s 1 0, map fst (cells s))) =
     Some (Inr ''Widget B'', [''0-0'', ''0-1'', ''1-1'', ''1-2''])"
  by (simp add: moveRange_def rangePositions_def eval_simps upto.simps)











end
